theory Spec2Isabelle
  imports Main "HOL-Library.Word"
begin

unbundle bit_operations_syntax

section \<open>Data model of the connection manager\<close>

text \<open>
  The development embeds \<^verbatim>\<open>src/cc/AsyncComm/ConnectionManager.cc\<close>.
  Every member function that takes the manager mutex is one atomic transition of a state
  record; what a transition asks of the outside world (the comm layer, the clock, the
  random number generator) is an argument of the transition, and what it does to the
  outside world is appended to a trace.
\<close>

subsection \<open>Addresses\<close>

text \<open>\<^verbatim>\<open>struct sockaddr_in\<close>: address family, port and IPv4 address.\<close>

record sockaddr_in =
  sin_family :: "16 word"
  sin_port :: "16 word"
  sin_addr :: "32 word"

text \<open>What \<^verbatim>\<open>memset(&conn_state->local_addr, 0, sizeof(struct sockaddr_in))\<close> leaves.\<close>

definition zero_sockaddr :: sockaddr_in where
  "zero_sockaddr = \<lparr>sin_family = 0, sin_port = 0, sin_addr = 0\<rparr>"

type_synonym endpoint = "32 word \<times> 16 word"

text \<open>
  Modelled from the spec: the hash and the equality of \<^verbatim>\<open>SockAddrMap\<close> are declared in a
  header that is not part of the sources at hand. The data model of the specification
  says that an endpoint is the 32-bit IPv4 address plus the 16-bit port and that equality
  is over this tuple, so the registry is keyed by this pair.
\<close>

definition endpoint_of :: "sockaddr_in \<Rightarrow> endpoint" where
  "endpoint_of a = (sin_addr a, sin_port a)"

subsection \<open>Time\<close>

text \<open>
  Modelled from the spec: \<^verbatim>\<open>boost::xtime\<close> and the helpers \<^verbatim>\<open>xtime_add_millis\<close>,
  \<^verbatim>\<open>xtime_sub_millis\<close> and \<^verbatim>\<open>xtime_cmp\<close> of \<^verbatim>\<open>Common/Time.h\<close> are not part of the
  sources at hand. The specification describes a clock with millisecond arithmetic; a
  time stamp is an integer number of nanoseconds, and the helpers move it by the given
  number of milliseconds.
\<close>

type_synonym xtime = int

definition xtime_add_millis :: "xtime \<Rightarrow> 32 word \<Rightarrow> xtime" where
  "xtime_add_millis t ms = t + 1000000 * uint ms"

definition xtime_sub_millis :: "xtime \<Rightarrow> 32 word \<Rightarrow> xtime" where
  "xtime_sub_millis t ms = t - 1000000 * uint ms"

definition xtime_cmp :: "xtime \<Rightarrow> xtime \<Rightarrow> int" where
  "xtime_cmp t1 t2 = (if t1 < t2 then - 1 else if t1 = t2 then 0 else 1)"

subsection \<open>Error codes and events\<close>

text \<open>
  Modelled from the spec: \<^verbatim>\<open>Common/Error.h\<close> is not part of the sources at hand. The code
  tells \<^verbatim>\<open>Error::OK\<close> and \<^verbatim>\<open>Error::COMM_ALREADY_CONNECTED\<close> from every other code; the
  other codes are numbered by \<open>Failure\<close>.
\<close>

datatype error = OK | COMM_ALREADY_CONNECTED | Failure nat

text \<open>
  Modelled from the spec: \<^verbatim>\<open>AsyncComm/Event.h\<close> is not part of the sources at hand. The
  specification lists these event types; the manager reads the type and the address of
  an event.
\<close>

datatype event_type = CONNECTION_ESTABLISHED | DISCONNECT | MESSAGE | ERROR

record event =
  ev_type :: event_type
  ev_addr :: sockaddr_in

subsection \<open>Connection records\<close>

text \<open>
  \<^verbatim>\<open>ConnectionState\<close>. A \<^verbatim>\<open>DispatchHandlerPtr\<close> is the identity of a handler object or
  null. The mutex and the condition variable of a record carry no data: the operations
  on the condition variable appear in the trace.
\<close>

record conn_state =
  connected :: bool
  addr :: sockaddr_in
  local_addr :: sockaddr_in
  timeout_ms :: "32 word"
  handler :: "nat option"
  service_name :: string
  next_retry :: xtime

subsection \<open>Trace\<close>

text \<open>
  Calls into the comm layer, operations on condition variables, log lines, calls of the
  application's handler, and the writes of a record's \<open>connected\<close> flag, in program
  order. Records are named by their address in the object store.
\<close>

datatype effect =
    CommConnect sockaddr_in
  | CommConnectLocal sockaddr_in sockaddr_in
  | CommCloseSocket sockaddr_in
  | CondNotifyAll nat
  | CondTimedWait nat xtime
  | RetryCondNotifyOne
  | RetryCondWait
  | RetryCondTimedWait xtime
  | LogError string sockaddr_in error int
  | LogInfo event string int
  | LogWarn sockaddr_in
  | HandlerHandle nat event
  | SetConnected nat bool

subsection \<open>Manager state\<close>

text \<open>
  \<open>conn_map\<close>, \<open>retry_queue\<close>, \<open>quiet_mode\<close> and \<open>shutdown\<close> are the members of
  \<^verbatim>\<open>m_impl\<close> that the code reads. The registry and the retry queue hold shared pointers to
  the same \<^verbatim>\<open>ConnectionState\<close> objects, so the objects live in a store \<open>objs\<close> indexed by
  address, and \<open>next_obj\<close> is the address that the next \<^verbatim>\<open>new ConnectionState()\<close> returns.
  Objects are never reclaimed in the model.
\<close>

record state =
  conn_map :: "endpoint \<rightharpoonup> nat"
  retry_queue :: "nat list"
  quiet_mode :: bool
  shutdown :: bool
  objs :: "nat \<Rightarrow> conn_state"
  next_obj :: nat
  trace :: "effect list"

text \<open>What one call of \<^verbatim>\<open>send_connect_request\<close> gets from outside: the status that
  \<^verbatim>\<open>Comm::connect\<close> returns, the clock read by \<^verbatim>\<open>boost::xtime_get\<close> on the failure path,
  and the two values of \<^verbatim>\<open>System::rand32()\<close>.\<close>

record connect_env =
  connect_ret :: error
  clock :: xtime
  rand1 :: "32 word"
  rand2 :: "32 word"

section \<open>Operations\<close>

definition emit :: "effect \<Rightarrow> state \<Rightarrow> state" where
  "emit e s = s\<lparr>trace := trace s @ [e]\<rparr>"

definition set_connected :: "nat \<Rightarrow> bool \<Rightarrow> state \<Rightarrow> state" where
  "set_connected p b s =
     emit (SetConnected p b) (s\<lparr>objs := (objs s)(p := (objs s p)\<lparr>connected := b\<rparr>)\<rparr>)"

definition set_next_retry :: "nat \<Rightarrow> xtime \<Rightarrow> state \<Rightarrow> state" where
  "set_next_retry p t s = s\<lparr>objs := (objs s)(p := (objs s p)\<lparr>next_retry := t\<rparr>)\<rparr>"

subsection \<open>The retry queue\<close>

text \<open>
  Modelled from the spec: the comparator of the \<^verbatim>\<open>std::priority_queue\<close> is declared in
  \<^verbatim>\<open>ConnectionManager.h\<close>, which is not part of the sources at hand. The specification
  says that the retry schedule is a min-heap keyed by \<open>next_retry\<close> in which a record may
  occur several times, and leaves the order among equal keys open. The queue is the
  list of its entries; \<open>queue_top\<close> is the first entry with the least \<open>next_retry\<close>, and
  \<open>pop\<close> removes one occurrence of it.
\<close>

definition push :: "nat \<Rightarrow> state \<Rightarrow> state" where
  "push p s = s\<lparr>retry_queue := retry_queue s @ [p]\<rparr>"

fun queue_top :: "(nat \<Rightarrow> conn_state) \<Rightarrow> nat \<Rightarrow> nat list \<Rightarrow> nat" where
  "queue_top os p [] = p"
| "queue_top os p (q # qs) =
     queue_top os (if xtime_cmp (next_retry (os q)) (next_retry (os p)) < 0 then q else p) qs"

definition pop :: "nat \<Rightarrow> state \<Rightarrow> state" where
  "pop p s = s\<lparr>retry_queue := remove1 p (retry_queue s)\<rparr>"

subsection \<open>\<^verbatim>\<open>ConnectionManager::send_connect_request\<close>\<close>

definition send_connect_request :: "nat \<Rightarrow> connect_env \<Rightarrow> state \<Rightarrow> state" where
  "send_connect_request p env s =
     (let cs = objs s p;
          s1 = (if sin_port (local_addr cs) \<noteq> 0
                then emit (CommConnectLocal (addr cs) (local_addr cs)) s
                else emit (CommConnect (addr cs)) s)
      in if connect_ret env = COMM_ALREADY_CONNECTED then
           emit (CondNotifyAll p) (set_connected p True s1)
         else if connect_ret env \<noteq> OK then
           (let s2 = emit (LogError (if service_name cs \<noteq> [] then service_name cs
                                     else ''service'')
                          (addr cs) (connect_ret env) (sint (timeout_ms cs))) s1;
                t0 = xtime_add_millis (clock env) (timeout_ms cs);
                milli_adjust = rand1 env mod 2000;
                t1 = (if rand2 env AND 1 \<noteq> 0 then xtime_sub_millis t0 milli_adjust
                      else xtime_add_millis t0 milli_adjust)
            in emit RetryCondNotifyOne (push p (set_next_retry p t1 s2)))
         else s1)"

subsection \<open>\<^verbatim>\<open>ConnectionManager::add\<close>\<close>

text \<open>The overload without a local address; \<open>name\<close> is the nullable \<^verbatim>\<open>service_name\<close>, \<open>now\<close>
  the clock read when the record is created.\<close>

definition add ::
  "sockaddr_in \<Rightarrow> 32 word \<Rightarrow> string option \<Rightarrow> nat option \<Rightarrow> xtime \<Rightarrow> connect_env
     \<Rightarrow> state \<Rightarrow> state" where
  "add a tmo name h now env s =
     (if conn_map s (endpoint_of a) \<noteq> None then s
      else
        (let p = next_obj s;
             cs = \<lparr>connected = False, addr = a, local_addr = zero_sockaddr,
                   timeout_ms = tmo, handler = h,
                   service_name = (case name of Some n \<Rightarrow> n | None \<Rightarrow> []),
                   next_retry = now\<rparr>;
             s1 = s\<lparr>objs := (objs s)(p := cs), next_obj := Suc p,
                    conn_map := (conn_map s)(endpoint_of a \<mapsto> p)\<rparr>
         in send_connect_request p env s1))"

text \<open>The overload with a local address.\<close>

definition add_local ::
  "sockaddr_in \<Rightarrow> sockaddr_in \<Rightarrow> 32 word \<Rightarrow> string option \<Rightarrow> nat option \<Rightarrow> xtime
     \<Rightarrow> connect_env \<Rightarrow> state \<Rightarrow> state" where
  "add_local a la tmo name h now env s =
     (if conn_map s (endpoint_of a) \<noteq> None then s
      else
        (let p = next_obj s;
             cs = \<lparr>connected = False, addr = a, local_addr = la,
                   timeout_ms = tmo, handler = h,
                   service_name = (case name of Some n \<Rightarrow> n | None \<Rightarrow> []),
                   next_retry = now\<rparr>;
             s1 = s\<lparr>objs := (objs s)(p := cs), next_obj := Suc p,
                    conn_map := (conn_map s)(endpoint_of a \<mapsto> p)\<rparr>
         in send_connect_request p env s1))"

subsection \<open>\<^verbatim>\<open>ConnectionManager::remove\<close>\<close>

text \<open>\<open>close_ret\<close> is the status that \<^verbatim>\<open>Comm::close_socket\<close> returns if it is called.\<close>

definition remove :: "sockaddr_in \<Rightarrow> error \<Rightarrow> state \<Rightarrow> error \<times> state" where
  "remove a close_ret s =
     (case conn_map s (endpoint_of a) of
        Some p \<Rightarrow>
          (let do_close = connected (objs s p);
               s1 = (if connected (objs s p) then s else set_connected p True s);
               s2 = s1\<lparr>conn_map := (conn_map s1)(endpoint_of a := None)\<rparr>
           in if do_close then (close_ret, emit (CommCloseSocket a) s2) else (OK, s2))
      | None \<Rightarrow> (OK, s))"

subsection \<open>\<^verbatim>\<open>ConnectionManager::handle\<close>\<close>

text \<open>\<open>now\<close> is the clock read on the \<^verbatim>\<open>ERROR\<close>/\<^verbatim>\<open>DISCONNECT\<close> path.\<close>

definition handle :: "event \<Rightarrow> xtime \<Rightarrow> state \<Rightarrow> state" where
  "handle ev now s =
     (case conn_map s (endpoint_of (ev_addr ev)) of
        Some p \<Rightarrow>
          (let cs = objs s p;
               s1 = (if ev_type ev = CONNECTION_ESTABLISHED then
                       emit (CondNotifyAll p) (set_connected p True s)
                     else if ev_type ev = ERROR \<or> ev_type ev = DISCONNECT then
                       (let s2 = (if \<not> quiet_mode s
                                  then emit (LogInfo ev (service_name cs)
                                               (sint (timeout_ms cs))) s
                                  else s);
                            s3 = set_connected p False s2;
                            s4 = set_next_retry p (xtime_add_millis now (timeout_ms cs)) s3
                        in emit RetryCondNotifyOne (push p s4))
                     else s)
           in (case handler cs of
                 Some h \<Rightarrow> emit (HandlerHandle h ev) s1
               | None \<Rightarrow> s1))
      | None \<Rightarrow> emit (LogWarn (ev_addr ev)) s)"

subsection \<open>\<^verbatim>\<open>ConnectionManager::operator()\<close>\<close>

text \<open>
  One pass of the worker between two releases of the manager mutex: from the test of the
  shutdown flag to the next wait on the retry condition, or to the end of the loop body.
  \<open>now\<close> is the clock read under the record's lock.
\<close>

definition worker_iteration :: "xtime \<Rightarrow> connect_env \<Rightarrow> state \<Rightarrow> state" where
  "worker_iteration now env s =
     (if shutdown s then s
      else
        (case retry_queue s of
           [] \<Rightarrow> emit RetryCondWait s
         | q # qs \<Rightarrow>
             (let p = queue_top (objs s) q qs in
              if \<not> connected (objs s p) then
                (if xtime_cmp (next_retry (objs s p)) now \<le> 0 then
                   send_connect_request p env (pop p s)
                 else emit (RetryCondTimedWait (next_retry (objs s p))) s)
              else pop p s)))"

subsection \<open>Runs\<close>

text \<open>The operations that change the manager, each with what it gets from outside.\<close>

datatype op =
    Add sockaddr_in "32 word" "string option" "nat option" xtime connect_env
  | AddLocal sockaddr_in sockaddr_in "32 word" "string option" "nat option" xtime connect_env
  | Remove sockaddr_in error
  | Handle event xtime
  | Worker xtime connect_env

fun step :: "op \<Rightarrow> state \<Rightarrow> state" where
  "step (Add a tmo name h now env) s = add a tmo name h now env s"
| "step (AddLocal a la tmo name h now env) s = add_local a la tmo name h now env s"
| "step (Remove a r) s = snd (remove a r s)"
| "step (Handle ev now) s = handle ev now s"
| "step (Worker now env) s = worker_iteration now env s"

fun run :: "op list \<Rightarrow> state \<Rightarrow> state" where
  "run [] s = s"
| "run (x # xs) s = run xs (step x s)"

text \<open>
  Modelled from the spec: the constructor is in \<^verbatim>\<open>ConnectionManager.h\<close>, which is not part
  of the sources at hand. A new manager has an empty registry and an empty retry
  schedule and is not shut down.
\<close>

definition initial :: "bool \<Rightarrow> state" where
  "initial quiet =
     \<lparr>conn_map = Map.empty, retry_queue = [], quiet_mode = quiet, shutdown = False,
      objs = (\<lambda>_. \<lparr>connected = False, addr = zero_sockaddr, local_addr = zero_sockaddr,
                   timeout_ms = 0, handler = None, service_name = [], next_retry = 0\<rparr>),
      next_obj = 0, trace = []\<rparr>"

text \<open>What an operation appended to the trace.\<close>

definition new_effects :: "state \<Rightarrow> state \<Rightarrow> effect list" where
  "new_effects s s' = drop (length (trace s)) (trace s')"

subsection \<open>\<^verbatim>\<open>ConnectionManager::wait_for_connection\<close>\<close>

text \<open>
  The caller blocks in \<^verbatim>\<open>timed_wait\<close> with the record's mutex released, so other threads
  run while it waits. One \<open>wake\<close> describes one call of \<^verbatim>\<open>timed_wait\<close>: the clock and
  \<^verbatim>\<open>timer.remaining()\<close> read before it, the operations of the other threads during the
  wait, and whether \<^verbatim>\<open>timed_wait\<close> returned true (signalled) or false (timed out). The
  loop returns \<open>None\<close> when the caller is still blocked after the last described wait.
\<close>

record wake =
  wk_now :: xtime
  wk_remaining :: "32 word"
  wk_ops :: "op list"
  wk_signalled :: bool

definition timed_wait :: "nat \<Rightarrow> wake \<Rightarrow> state \<Rightarrow> state" where
  "timed_wait p w s =
     (let drop_time = xtime_add_millis (wk_now w) (wk_remaining w)
      in run (wk_ops w) (emit (CondTimedWait p drop_time) s))"

fun wait_loop :: "nat \<Rightarrow> wake list \<Rightarrow> state \<Rightarrow> (bool \<times> state) option" where
  "wait_loop p [] s = (if connected (objs s p) then Some (True, s) else None)"
| "wait_loop p (w # ws) s =
     (if connected (objs s p) then Some (True, s)
      else
        (let s1 = timed_wait p w s
         in if \<not> wk_signalled w then Some (False, s1) else wait_loop p ws s1))"

text \<open>
  The manager mutex is released right after the lookup and the record's mutex is taken
  afterwards, with no lock held in between: \<open>gap\<close> is what the other threads do between
  the lookup and the first test of the flag.
\<close>

definition wait_for_connection ::
  "sockaddr_in \<Rightarrow> op list \<Rightarrow> wake list \<Rightarrow> state \<Rightarrow> (bool \<times> state) option" where
  "wait_for_connection a gap ws s =
     (case conn_map s (endpoint_of a) of
        None \<Rightarrow> Some (False, s)
      | Some p \<Rightarrow> wait_loop p ws (run gap s))"

section \<open>Auxiliary notions for the statements\<close>

text \<open>The call of \<^verbatim>\<open>Comm::connect\<close> that \<^verbatim>\<open>send_connect_request\<close> makes for a record, the
  error line it logs, and the retry time it computes on the failure path.\<close>

definition connect_call :: "conn_state \<Rightarrow> effect" where
  "connect_call cs =
     (if sin_port (local_addr cs) \<noteq> 0 then CommConnectLocal (addr cs) (local_addr cs)
      else CommConnect (addr cs))"

definition jitter_retry :: "connect_env \<Rightarrow> 32 word \<Rightarrow> xtime" where
  "jitter_retry env tmo =
     (if rand2 env AND 1 \<noteq> 0
      then xtime_sub_millis (xtime_add_millis (clock env) tmo) (rand1 env mod 2000)
      else xtime_add_millis (xtime_add_millis (clock env) tmo) (rand1 env mod 2000))"

definition error_line :: "conn_state \<Rightarrow> error \<Rightarrow> effect" where
  "error_line cs e =
     LogError (if service_name cs \<noteq> [] then service_name cs else ''service'')
       (addr cs) e (sint (timeout_ms cs))"

text \<open>What \<^verbatim>\<open>handle\<close> passes on to the application's handler, and its info line.\<close>

definition forwarded :: "conn_state \<Rightarrow> event \<Rightarrow> effect list" where
  "forwarded cs ev = (case handler cs of Some h \<Rightarrow> [HandlerHandle h ev] | None \<Rightarrow> [])"

definition info_line :: "bool \<Rightarrow> conn_state \<Rightarrow> event \<Rightarrow> effect list" where
  "info_line quiet cs ev =
     (if \<not> quiet then [LogInfo ev (service_name cs) (sint (timeout_ms cs))] else [])"

text \<open>The calls of \<^verbatim>\<open>Comm::connect\<close> in a trace, and the address an \<^verbatim>\<open>add\<close> registers.\<close>

fun is_connect :: "effect \<Rightarrow> bool" where
  "is_connect (CommConnect a) = True"
| "is_connect (CommConnectLocal a la) = True"
| "is_connect e = False"

fun adds_addr :: "op \<Rightarrow> sockaddr_in option" where
  "adds_addr (Add a tmo name h now env) = Some a"
| "adds_addr (AddLocal a la tmo name h now env) = Some a"
| "adds_addr x = None"

text \<open>Data of the end-to-end scenarios: the peer 1.2.3.4:8000 with a retry interval of
  5000 ms, and a comm layer that answers \<^verbatim>\<open>connect\<close> with a given status.\<close>

definition peer :: sockaddr_in where
  "peer = \<lparr>sin_family = 2, sin_port = 8000, sin_addr = 0x01020304\<rparr>"

definition env_of :: "error \<Rightarrow> connect_env" where
  "env_of r = \<lparr>connect_ret = r, clock = 7000000000, rand1 = 4321, rand2 = 9\<rparr>"

definition add_peer :: "error \<Rightarrow> op" where
  "add_peer r = Add peer 5000 (Some ''master'') (Some 0) 1000000000 (env_of r)"

definition bind_any :: sockaddr_in where
  "bind_any = \<lparr>sin_family = 2, sin_port = 0, sin_addr = 0x0A000001\<rparr>"

text \<open>The address that a call of \<^verbatim>\<open>Comm::connect\<close> in the trace is for.\<close>

fun connect_dest :: "effect \<Rightarrow> sockaddr_in option" where
  "connect_dest (CommConnect a) = Some a"
| "connect_dest (CommConnectLocal a la) = Some a"
| "connect_dest e = None"

text \<open>
  A record is registered when the registry maps the endpoint of its address to it. The
  invariant of the reachable states: registry entries point to allocated records that
  carry the key's endpoint, the retry queue holds allocated records, and every allocated
  record that is not registered has its \<open>connected\<close> flag set.
\<close>

definition registered :: "state \<Rightarrow> nat \<Rightarrow> bool" where
  "registered s p \<longleftrightarrow> conn_map s (endpoint_of (addr (objs s p))) = Some p"

definition inv :: "state \<Rightarrow> bool" where
  "inv s \<longleftrightarrow>
     (\<forall>k p. conn_map s k = Some p \<longrightarrow> p < next_obj s \<and> endpoint_of (addr (objs s p)) = k)
   \<and> (\<forall>p \<in> set (retry_queue s). p < next_obj s)
   \<and> (\<forall>p < next_obj s. registered s p \<or> connected (objs s p))"

text \<open>
  The record, if any, for which an operation calls \<^verbatim>\<open>send_connect_request\<close>, and the status
  that the comm layer's connect returns to it: \<^verbatim>\<open>add\<close> connects the record it creates; the
  worker connects the top of the retry queue when that record is not connected and due.
\<close>

fun op_connect_ret :: "op \<Rightarrow> error option" where
  "op_connect_ret (Add a tmo name h now env) = Some (connect_ret env)"
| "op_connect_ret (AddLocal a la tmo name h now env) = Some (connect_ret env)"
| "op_connect_ret (Worker now env) = Some (connect_ret env)"
| "op_connect_ret x = None"

fun connect_target :: "op \<Rightarrow> state \<Rightarrow> nat option" where
  "connect_target (Add a tmo name h now env) s =
     (if conn_map s (endpoint_of a) = None then Some (next_obj s) else None)"
| "connect_target (AddLocal a la tmo name h now env) s =
     (if conn_map s (endpoint_of a) = None then Some (next_obj s) else None)"
| "connect_target (Worker now env) s =
     (if shutdown s then None
      else
        (case retry_queue s of
           [] \<Rightarrow> None
         | q # qs \<Rightarrow>
             if \<not> connected (objs s (queue_top (objs s) q qs))
                \<and> xtime_cmp (next_retry (objs s (queue_top (objs s) q qs))) now \<le> 0
             then Some (queue_top (objs s) q qs) else None))"
| "connect_target x s = None"

text \<open>What \<^verbatim>\<open>send_connect_request\<close> appends to the trace for a record.\<close>

definition scr_effects :: "conn_state \<Rightarrow> nat \<Rightarrow> connect_env \<Rightarrow> effect list" where
  "scr_effects cs p env =
     connect_call cs #
       (case connect_ret env of
          OK \<Rightarrow> []
        | COMM_ALREADY_CONNECTED \<Rightarrow> [SetConnected p True, CondNotifyAll p]
        | Failure n \<Rightarrow> [error_line cs (Failure n), RetryCondNotifyOne])"

text \<open>
  Two records are alike up to an unused bind address when they agree on every field
  except, possibly, on local addresses that both have port zero; two states are alike
  when they agree on everything but such local addresses.
\<close>

definition same_unbound :: "conn_state \<Rightarrow> conn_state \<Rightarrow> bool" where
  "same_unbound c d \<longleftrightarrow>
     connected c = connected d \<and> addr c = addr d \<and> timeout_ms c = timeout_ms d
   \<and> handler c = handler d \<and> service_name c = service_name d \<and> next_retry c = next_retry d
   \<and> (local_addr c = local_addr d
        \<or> (sin_port (local_addr c) = 0 \<and> sin_port (local_addr d) = 0))"

definition sim :: "state \<Rightarrow> state \<Rightarrow> bool" where
  "sim s t \<longleftrightarrow>
     conn_map s = conn_map t \<and> retry_queue s = retry_queue t \<and> quiet_mode s = quiet_mode t
   \<and> shutdown s = shutdown t \<and> next_obj s = next_obj t \<and> trace s = trace t
   \<and> (\<forall>p. same_unbound (objs s p) (objs t p))"

section \<open>Basic facts\<close>

lemma emit_fields [simp]:
  "conn_map (emit e s) = conn_map s" "retry_queue (emit e s) = retry_queue s"
  "quiet_mode (emit e s) = quiet_mode s" "shutdown (emit e s) = shutdown s"
  "objs (emit e s) = objs s" "next_obj (emit e s) = next_obj s"
  "trace (emit e s) = trace s @ [e]"
  by (simp_all add: emit_def)

lemma set_connected_fields [simp]:
  "conn_map (set_connected p b s) = conn_map s"
  "retry_queue (set_connected p b s) = retry_queue s"
  "quiet_mode (set_connected p b s) = quiet_mode s"
  "shutdown (set_connected p b s) = shutdown s"
  "objs (set_connected p b s) = (objs s)(p := (objs s p)\<lparr>connected := b\<rparr>)"
  "next_obj (set_connected p b s) = next_obj s"
  "trace (set_connected p b s) = trace s @ [SetConnected p b]"
  by (simp_all add: set_connected_def)

lemma set_next_retry_fields [simp]:
  "conn_map (set_next_retry p t s) = conn_map s"
  "retry_queue (set_next_retry p t s) = retry_queue s"
  "quiet_mode (set_next_retry p t s) = quiet_mode s"
  "shutdown (set_next_retry p t s) = shutdown s"
  "objs (set_next_retry p t s) = (objs s)(p := (objs s p)\<lparr>next_retry := t\<rparr>)"
  "next_obj (set_next_retry p t s) = next_obj s"
  "trace (set_next_retry p t s) = trace s"
  by (simp_all add: set_next_retry_def)

lemma push_fields [simp]:
  "conn_map (push p s) = conn_map s" "retry_queue (push p s) = retry_queue s @ [p]"
  "quiet_mode (push p s) = quiet_mode s" "shutdown (push p s) = shutdown s"
  "objs (push p s) = objs s" "next_obj (push p s) = next_obj s"
  "trace (push p s) = trace s"
  by (simp_all add: push_def)

lemma pop_fields [simp]:
  "conn_map (pop p s) = conn_map s" "retry_queue (pop p s) = remove1 p (retry_queue s)"
  "quiet_mode (pop p s) = quiet_mode s" "shutdown (pop p s) = shutdown s"
  "objs (pop p s) = objs s" "next_obj (pop p s) = next_obj s"
  "trace (pop p s) = trace s"
  by (simp_all add: pop_def)

lemma new_effects_append: "trace s' = trace s @ es \<Longrightarrow> new_effects s s' = es"
  by (simp add: new_effects_def)

lemma new_effects_same [simp]: "new_effects s s = []"
  by (simp add: new_effects_def)

lemma scr_ok: "connect_ret env = OK \<Longrightarrow>
  send_connect_request p env s = s\<lparr>trace := trace s @ [connect_call (objs s p)]\<rparr>"
  by (simp add: send_connect_request_def connect_call_def emit_def Let_def)

lemma scr_ac: "connect_ret env = COMM_ALREADY_CONNECTED \<Longrightarrow>
  send_connect_request p env s =
    s\<lparr>objs := (objs s)(p := (objs s p)\<lparr>connected := True\<rparr>),
      trace := trace s @ [connect_call (objs s p), SetConnected p True, CondNotifyAll p]\<rparr>"
  by (simp add: send_connect_request_def connect_call_def emit_def set_connected_def Let_def)

lemma scr_fail: "connect_ret env \<noteq> OK \<Longrightarrow> connect_ret env \<noteq> COMM_ALREADY_CONNECTED \<Longrightarrow>
  send_connect_request p env s =
    s\<lparr>objs := (objs s)(p := (objs s p)\<lparr>next_retry := jitter_retry env (timeout_ms (objs s p))\<rparr>),
      retry_queue := retry_queue s @ [p],
      trace := trace s @ [connect_call (objs s p), error_line (objs s p) (connect_ret env),
                          RetryCondNotifyOne]\<rparr>"
  by (simp add: send_connect_request_def connect_call_def emit_def set_next_retry_def push_def
      jitter_retry_def error_line_def Let_def)

lemma handle_unknown:
  "conn_map s (endpoint_of (ev_addr ev)) = None \<Longrightarrow>
   handle ev now s = s\<lparr>trace := trace s @ [LogWarn (ev_addr ev)]\<rparr>"
  by (simp add: handle_def emit_def)

lemma handle_established:
  "conn_map s (endpoint_of (ev_addr ev)) = Some p \<Longrightarrow> ev_type ev = CONNECTION_ESTABLISHED \<Longrightarrow>
   handle ev now s =
     s\<lparr>objs := (objs s)(p := (objs s p)\<lparr>connected := True\<rparr>),
       trace := trace s @ [SetConnected p True, CondNotifyAll p] @ forwarded (objs s p) ev\<rparr>"
  by (simp add: handle_def emit_def set_connected_def forwarded_def Let_def split: option.split)

lemma handle_failure:
  "conn_map s (endpoint_of (ev_addr ev)) = Some p \<Longrightarrow>
   ev_type ev = ERROR \<or> ev_type ev = DISCONNECT \<Longrightarrow>
   handle ev now s =
     s\<lparr>objs := (objs s)(p := (objs s p)\<lparr>connected := False,
             next_retry := xtime_add_millis now (timeout_ms (objs s p))\<rparr>),
       retry_queue := retry_queue s @ [p],
       trace := trace s @ info_line (quiet_mode s) (objs s p) ev
                  @ [SetConnected p False, RetryCondNotifyOne] @ forwarded (objs s p) ev\<rparr>"
  by (auto simp add: handle_def emit_def set_connected_def set_next_retry_def push_def
      forwarded_def info_line_def Let_def split: option.split)

lemma handle_other:
  "conn_map s (endpoint_of (ev_addr ev)) = Some p \<Longrightarrow> ev_type ev = MESSAGE \<Longrightarrow>
   handle ev now s = s\<lparr>trace := trace s @ forwarded (objs s p) ev\<rparr>"
  by (simp add: handle_def emit_def forwarded_def Let_def split: option.split)

lemma remove_absent:
  "conn_map s (endpoint_of a) = None \<Longrightarrow> remove a r s = (OK, s)"
  by (simp add: remove_def)

lemma remove_connected:
  "conn_map s (endpoint_of a) = Some p \<Longrightarrow> connected (objs s p) \<Longrightarrow>
   remove a r s = (r, s\<lparr>conn_map := (conn_map s)(endpoint_of a := None),
                         trace := trace s @ [CommCloseSocket a]\<rparr>)"
  by (simp add: remove_def emit_def)

lemma remove_disconnected:
  "conn_map s (endpoint_of a) = Some p \<Longrightarrow> \<not> connected (objs s p) \<Longrightarrow>
   remove a r s = (OK, s\<lparr>conn_map := (conn_map s)(endpoint_of a := None),
                          objs := (objs s)(p := (objs s p)\<lparr>connected := True\<rparr>),
                          trace := trace s @ [SetConnected p True]\<rparr>)"
  by (simp add: remove_def emit_def set_connected_def)

lemma jitter_bound: "uint ((w :: 32 word) mod 2000) < 2000"
  by (simp add: uint_mod_distrib)

lemma add_present: "conn_map s (endpoint_of a) \<noteq> None \<Longrightarrow> add a tmo name h now env s = s"
  by (simp add: add_def)

lemma add_local_present:
  "conn_map s (endpoint_of a) \<noteq> None \<Longrightarrow> add_local a la tmo name h now env s = s"
  by (simp add: add_local_def)

lemma scr_frame:
  "conn_map (send_connect_request p env s) = conn_map s"
  "next_obj (send_connect_request p env s) = next_obj s"
  "quiet_mode (send_connect_request p env s) = quiet_mode s"
  "shutdown (send_connect_request p env s) = shutdown s"
  by (simp_all add: send_connect_request_def Let_def)

lemma scr_connects_once:
  "\<exists>es. trace (send_connect_request p env s) = trace s @ connect_call (objs s p) # es
        \<and> (\<forall>e \<in> set es. \<not> is_connect e)"
proof (cases "connect_ret env")
  case OK
  then show ?thesis by (simp add: scr_ok)
next
  case COMM_ALREADY_CONNECTED
  then show ?thesis by (simp add: scr_ac)
next
  case (Failure n)
  then show ?thesis by (simp add: scr_fail error_line_def)
qed

lemma is_connect_connect_call [simp]: "is_connect (connect_call cs)"
  by (simp add: connect_call_def)

lemma scr_immutable:
  "addr (objs (send_connect_request p env s) q) = addr (objs s q)"
  "local_addr (objs (send_connect_request p env s) q) = local_addr (objs s q)"
  "timeout_ms (objs (send_connect_request p env s) q) = timeout_ms (objs s q)"
  "handler (objs (send_connect_request p env s) q) = handler (objs s q)"
  "service_name (objs (send_connect_request p env s) q) = service_name (objs s q)"
  by (cases "connect_ret env"; simp add: scr_ok scr_ac scr_fail)+

lemma count_connects:
  "trace s' = trace s @ c # es \<Longrightarrow> is_connect c \<Longrightarrow> \<forall>e \<in> set es. \<not> is_connect e \<Longrightarrow>
   length (filter is_connect (new_effects s s')) = 1"
  by (simp add: new_effects_def)

lemma add_fresh:
  assumes "adds_addr x = Some a" and "conn_map s (endpoint_of a) = None"
  shows "conn_map (step x s) = (conn_map s)(endpoint_of a \<mapsto> next_obj s)
       \<and> next_obj (step x s) = Suc (next_obj s)
       \<and> addr (objs (step x s) (next_obj s)) = a
       \<and> length (filter is_connect (new_effects s (step x s))) = 1"
proof (cases x)
  case (Add a' tmo name h now env)
  with assms have a: "a' = a" by simp
  define s1 where "s1 = s\<lparr>objs := (objs s)(next_obj s :=
        \<lparr>connected = False, addr = a, local_addr = zero_sockaddr, timeout_ms = tmo,
         handler = h, service_name = (case name of Some n \<Rightarrow> n | None \<Rightarrow> []),
         next_retry = now\<rparr>),
      next_obj := Suc (next_obj s), conn_map := (conn_map s)(endpoint_of a \<mapsto> next_obj s)\<rparr>"
  have eq: "step x s = send_connect_request (next_obj s) env s1"
    using assms(2) by (simp add: Add a add_def s1_def Let_def)
  obtain es where es: "trace (step x s) = trace s1 @ connect_call (objs s1 (next_obj s)) # es"
      "\<forall>e \<in> set es. \<not> is_connect e"
    using scr_connects_once [of "next_obj s" env s1] by (auto simp: eq)
  have "trace s1 = trace s" by (simp add: s1_def)
  with es have "length (filter is_connect (new_effects s (step x s))) = 1"
    by (intro count_connects [where c = "connect_call (objs s1 (next_obj s))" and es = es]) simp_all
  then show ?thesis
    by (simp add: eq scr_frame scr_immutable) (simp add: s1_def)
next
  case (AddLocal a' la tmo name h now env)
  with assms have a: "a' = a" by simp
  define s1 where "s1 = s\<lparr>objs := (objs s)(next_obj s :=
        \<lparr>connected = False, addr = a, local_addr = la, timeout_ms = tmo,
         handler = h, service_name = (case name of Some n \<Rightarrow> n | None \<Rightarrow> []),
         next_retry = now\<rparr>),
      next_obj := Suc (next_obj s), conn_map := (conn_map s)(endpoint_of a \<mapsto> next_obj s)\<rparr>"
  have eq: "step x s = send_connect_request (next_obj s) env s1"
    using assms(2) by (simp add: AddLocal a add_local_def s1_def Let_def)
  obtain es where es: "trace (step x s) = trace s1 @ connect_call (objs s1 (next_obj s)) # es"
      "\<forall>e \<in> set es. \<not> is_connect e"
    using scr_connects_once [of "next_obj s" env s1] by (auto simp: eq)
  have "trace s1 = trace s" by (simp add: s1_def)
  with es have "length (filter is_connect (new_effects s (step x s))) = 1"
    by (intro count_connects [where c = "connect_call (objs s1 (next_obj s))" and es = es]) simp_all
  then show ?thesis
    by (simp add: eq scr_frame scr_immutable) (simp add: s1_def)
qed (use assms in simp_all)

lemma add_again:
  assumes "adds_addr x = Some a" and "conn_map s (endpoint_of a) \<noteq> None"
  shows "step x s = s"
  using assms by (cases x) (auto simp: add_present add_local_present)

lemmas ex_defs = peer_def env_of_def add_peer_def initial_def zero_sockaddr_def endpoint_of_def

lemmas eval_defs = ex_defs add_def add_local_def send_connect_request_def remove_def handle_def
  worker_iteration_def emit_def set_connected_def set_next_retry_def push_def pop_def Let_def
  registered_def xtime_cmp_def xtime_add_millis_def xtime_sub_millis_def new_effects_def

lemma count_residue_nat:
  assumes "j < 2000"
  shows "card {n::nat. n < 4294967296 \<and> n mod 2000 = j} = (if j < 1296 then 2147484 else 2147483)"
proof -
  define m :: nat where "m = (if j < 1296 then 2147484 else 2147483)"
  have "{n::nat. n < 4294967296 \<and> n mod 2000 = j} = (\<lambda>k. 2000 * k + j) ` {..<m}"
  proof (intro set_eqI iffI)
    fix n assume "n \<in> {n::nat. n < 4294967296 \<and> n mod 2000 = j}"
    then have n: "n < 4294967296" "n mod 2000 = j" by simp_all
    define q where "q = n div 2000"
    have e: "n = 2000 * q + j" using n(2) unfolding q_def by (metis mult_div_mod_eq)
    have "q < m"
    proof (cases "j < 1296")
      case True
      then have "m = 2147484" by (simp add: m_def)
      with n(1) e show ?thesis by linarith
    next
      case False
      then have "m = 2147483" by (simp add: m_def)
      with n(1) e False show ?thesis by linarith
    qed
    with e show "n \<in> (\<lambda>k. 2000 * k + j) ` {..<m}" by blast
  next
    fix n assume "n \<in> (\<lambda>k. 2000 * k + j) ` {..<m}"
    then obtain k where k: "k < m" "n = 2000 * k + j" by auto
    have "n < 4294967296" using k assms unfolding m_def by (cases "j < 1296") simp_all
    moreover have "n mod 2000 = j" using k(2) assms by simp
    ultimately show "n \<in> {n::nat. n < 4294967296 \<and> n mod 2000 = j}" by simp
  qed
  moreover have "inj_on (\<lambda>k. 2000 * k + j) {..<m}" by (simp add: inj_on_def)
  ultimately show ?thesis by (simp add: card_image m_def)
qed


lemma unat_32_bound: "unat (r :: 32 word) < 4294967296"
  using unsigned_less [of r, where 'a = nat] by simp

lemma low_bit_unat: "(r :: 32 word) AND 1 \<noteq> 0 \<longleftrightarrow> unat r mod 2 = 1"
  by (simp add: and_one_eq unat_mod_distrib flip: unat_eq_zero)

lemma count_words:
  "card {r :: 32 word. P (unat r)} = card {n::nat. n < 4294967296 \<and> P n}"
proof -
  have "unat ` {r :: 32 word. P (unat r)} = {n::nat. n < 4294967296 \<and> P n}"
  proof (intro set_eqI iffI)
    fix n assume "n \<in> unat ` {r :: 32 word. P (unat r)}"
    then obtain r :: "32 word" where r: "P (unat r)" "n = unat r" by auto
    with unat_32_bound [of r] show "n \<in> {n::nat. n < 4294967296 \<and> P n}" by simp
  next
    fix n assume "n \<in> {n::nat. n < 4294967296 \<and> P n}"
    then have n: "n < 4294967296" "P n" by simp_all
    have u: "unat (word_of_nat n :: 32 word) = n" using n(1) by (simp add: unsigned_of_nat take_bit_nat_eq_self)
    have "n = unat (word_of_nat n :: 32 word)" by (simp only: u)
    moreover have "(word_of_nat n :: 32 word) \<in> {r :: 32 word. P (unat r)}"
      using n(2) by (simp only: u mem_Collect_eq)
    ultimately show "n \<in> unat ` {r :: 32 word. P (unat r)}" by (rule image_eqI)
  qed
  moreover have "inj_on unat {r :: 32 word. P (unat r)}"
    by (simp add: inj_on_def word_unat_eq_iff)
  ultimately show ?thesis using card_image [of unat "{r :: 32 word. P (unat r)}"] by simp
qed

lemma count_residue_word:
  assumes "j < 2000"
  shows "card {r :: 32 word. unat (r mod 2000) = j} = (if j < 1296 then 2147484 else 2147483)"
  using count_words [of "\<lambda>n. n mod 2000 = j"] count_residue_nat [OF assms]
  by (simp add: unat_mod_distrib)

lemma count_odd_nat: "card {n::nat. n < 4294967296 \<and> n mod 2 = 1} = 2147483648"
proof -
  have "{n::nat. n < 4294967296 \<and> n mod 2 = 1} = (\<lambda>k. 2 * k + 1) ` {..<2147483648}"
  proof (intro set_eqI iffI)
    fix n assume "n \<in> {n::nat. n < 4294967296 \<and> n mod 2 = 1}"
    then have n: "n < 4294967296" "n mod 2 = 1" by simp_all
    define q where "q = n div 2"
    have e: "n = 2 * q + 1" using n(2) unfolding q_def by (metis mult_div_mod_eq)
    with n(1) have "q < 2147483648" by linarith
    with e show "n \<in> (\<lambda>k. 2 * k + 1) ` {..<2147483648}" by blast
  next
    fix n :: nat assume "n \<in> (\<lambda>k. 2 * k + 1) ` {..<2147483648}"
    then obtain k where k: "k < 2147483648" "n = 2 * k + 1" by auto
    then show "n \<in> {n::nat. n < 4294967296 \<and> n mod 2 = 1}" by simp
  qed
  moreover have "inj_on (\<lambda>k::nat. 2 * k + 1) {..<2147483648}" by (simp add: inj_on_def)
  ultimately show ?thesis by (simp add: card_image)
qed

lemma count_low_bit: "card {r :: 32 word. r AND 1 \<noteq> 0} = 2147483648"
  using count_words [of "\<lambda>n. n mod 2 = 1"] count_odd_nat
  by (simp add: low_bit_unat)

lemma scr_fail_next_retry:
  assumes "connect_ret env \<noteq> OK" and "connect_ret env \<noteq> COMM_ALREADY_CONNECTED"
  shows "next_retry (objs (send_connect_request p env s) p)
         = (if rand2 env AND 1 \<noteq> 0
            then clock env + 1000000 * uint (timeout_ms (objs s p))
                   - 1000000 * uint (rand1 env mod 2000)
            else clock env + 1000000 * uint (timeout_ms (objs s p))
                   + 1000000 * uint (rand1 env mod 2000))"
  by (simp add: scr_fail [OF assms] jitter_retry_def xtime_add_millis_def xtime_sub_millis_def)

lemma abs_shift:
  "0 \<le> k \<Longrightarrow> 0 \<le> d \<Longrightarrow> \<bar>(if c then D - k * d else D + k * d) - D\<bar> = k * (d::int)"
  by (cases c) (simp_all add: abs_mult)

lemma jitter_magnitude:
  assumes "connect_ret env \<noteq> OK" and "connect_ret env \<noteq> COMM_ALREADY_CONNECTED"
  shows "\<bar>next_retry (objs (send_connect_request p (env\<lparr>rand1 := r\<rparr>) s) p)
          - (clock env + 1000000 * uint (timeout_ms (objs s p)))\<bar>
         = 1000000 * uint (r mod 2000)"
proof -
  have a: "connect_ret (env\<lparr>rand1 := r\<rparr>) \<noteq> OK"
    "connect_ret (env\<lparr>rand1 := r\<rparr>) \<noteq> COMM_ALREADY_CONNECTED"
    using assms by simp_all
  have e: "next_retry (objs (send_connect_request p (env\<lparr>rand1 := r\<rparr>) s) p)
      = (if rand2 env AND 1 \<noteq> 0
         then clock env + 1000000 * uint (timeout_ms (objs s p)) - 1000000 * uint (r mod 2000)
         else clock env + 1000000 * uint (timeout_ms (objs s p)) + 1000000 * uint (r mod 2000))"
    using scr_fail_next_retry [OF a, of p s] by simp
  show ?thesis unfolding e by (rule abs_shift) simp_all
qed

lemma uint_eq_int_iff: "uint (w :: 32 word) = int j \<longleftrightarrow> unat w = j"
  by (metis uint_nat of_nat_eq_iff)

lemma uint_pos_iff: "0 < uint (w :: 32 word) \<longleftrightarrow> w \<noteq> 0"
  by (metis uint_0_iff uint_ge_0 order_less_le)

lemma jitter_count:
  assumes "connect_ret env \<noteq> OK" and "connect_ret env \<noteq> COMM_ALREADY_CONNECTED"
    and "j < 2000"
  shows "card {r :: 32 word.
           \<bar>next_retry (objs (send_connect_request p (env\<lparr>rand1 := r\<rparr>) s) p)
             - (clock env + 1000000 * uint (timeout_ms (objs s p)))\<bar> = 1000000 * int j}
         = (if j < 1296 then 2147484 else 2147483)"
  using count_residue_word [OF assms(3)]
  by (simp only: jitter_magnitude [OF assms(1,2)] mult_cancel_left uint_eq_int_iff) simp

lemma sign_count:
  assumes "connect_ret env \<noteq> OK" and "connect_ret env \<noteq> COMM_ALREADY_CONNECTED"
    and "rand1 env mod 2000 \<noteq> 0"
  shows "card {r :: 32 word.
           next_retry (objs (send_connect_request p (env\<lparr>rand2 := r\<rparr>) s) p)
             < clock env + 1000000 * uint (timeout_ms (objs s p))} = 2147483648"
proof -
  have pos: "0 < uint (rand1 env mod 2000)"
    using assms(3) by (simp add: uint_pos_iff)
  have "{r :: 32 word.
           next_retry (objs (send_connect_request p (env\<lparr>rand2 := r\<rparr>) s) p)
             < clock env + 1000000 * uint (timeout_ms (objs s p))}
        = {r :: 32 word. r AND 1 \<noteq> 0}"
    using assms(1,2) pos by (auto simp: scr_fail_next_retry)
  then show ?thesis by (simp add: count_low_bit)
qed

section \<open>The invariant of the registry and the retry queue\<close>

lemma queue_top_in: "queue_top os q qs \<in> set (q # qs)"
  by (induction qs arbitrary: q) (auto split: if_splits)

lemma scr_queue:
  "set (retry_queue (send_connect_request p env s)) \<subseteq> insert p (set (retry_queue s))"
  by (cases "connect_ret env") (auto simp: scr_ok scr_ac scr_fail)

lemma scr_connected_mono:
  "connected (objs s q) \<Longrightarrow> connected (objs (send_connect_request p env s) q)"
  by (cases "connect_ret env") (auto simp: scr_ok scr_ac scr_fail)

lemma inv_scr:
  assumes "inv s" and "registered s p" and "p < next_obj s"
  shows "inv (send_connect_request p env s)"
  using assms scr_queue [of p env s]
  unfolding inv_def registered_def
  by (auto simp: scr_frame scr_immutable scr_connected_mono)

lemma inv_initial: "inv (initial quiet)"
  by (simp add: inv_def initial_def)

lemma inv_alloc:
  assumes "inv s" and "conn_map s (endpoint_of a) = None" and "addr cs = a"
  shows "inv (s\<lparr>objs := (objs s)(next_obj s := cs), next_obj := Suc (next_obj s),
               conn_map := (conn_map s)(endpoint_of a \<mapsto> next_obj s)\<rparr>)"
    and "registered (s\<lparr>objs := (objs s)(next_obj s := cs), next_obj := Suc (next_obj s),
               conn_map := (conn_map s)(endpoint_of a \<mapsto> next_obj s)\<rparr>) (next_obj s)"
  using assms unfolding inv_def registered_def
  by (auto simp: less_Suc_eq)

lemma inv_add: "inv s \<Longrightarrow> inv (add a tmo name h now env s)"
  unfolding add_def Let_def
  by (auto intro!: inv_scr inv_alloc)

lemma inv_add_local: "inv s \<Longrightarrow> inv (add_local a la tmo name h now env s)"
  unfolding add_local_def Let_def
  by (auto intro!: inv_scr inv_alloc)

lemma inv_remove: "inv s \<Longrightarrow> inv (snd (remove a r s))"
proof (cases "conn_map s (endpoint_of a)")
  case None
  then show "inv s \<Longrightarrow> ?thesis" by (simp add: remove_absent)
next
  case (Some p)
  assume i: "inv s"
  show ?thesis
  proof (cases "connected (objs s p)")
    case True
    with i Some show ?thesis
      unfolding inv_def registered_def by (auto simp: remove_connected)
  next
    case False
    with i Some show ?thesis
      unfolding inv_def registered_def by (auto simp: remove_disconnected)
  qed
qed

lemma inv_lookup:
  "inv s \<Longrightarrow> conn_map s k = Some p \<Longrightarrow> p < next_obj s \<and> registered s p"
  by (simp add: inv_def registered_def del: split_paired_All)

lemma inv_touch:
  assumes "inv s" and "registered s p" and "p < next_obj s"
    and "conn_map s' = conn_map s" and "next_obj s' = next_obj s"
    and "set (retry_queue s') \<subseteq> insert p (set (retry_queue s))"
    and "\<forall>q. q \<noteq> p \<longrightarrow> objs s' q = objs s q" and "addr (objs s' p) = addr (objs s p)"
  shows "inv s'"
  unfolding inv_def registered_def
proof (intro conjI allI impI ballI)
  fix k q assume "conn_map s' k = Some q"
  then have q: "conn_map s k = Some q" by (simp add: assms(4))
  with assms(1) have "q < next_obj s" "endpoint_of (addr (objs s q)) = k"
    by (simp_all add: inv_def del: split_paired_All)
  then show "q < next_obj s'" "endpoint_of (addr (objs s' q)) = k"
    using assms(5,7,8) by (cases "q = p"; simp)+
next
  fix q assume "q \<in> set (retry_queue s')"
  with assms(6) have "q = p \<or> q \<in> set (retry_queue s)" by auto
  with assms(1,3) show "q < next_obj s'" by (auto simp: inv_def assms(5))
next
  fix q assume "q < next_obj s'"
  then have q: "q < next_obj s" by (simp add: assms(5))
  show "conn_map s' (endpoint_of (addr (objs s' q))) = Some q \<or> connected (objs s' q)"
  proof (cases "q = p")
    case True
    with assms(2) show ?thesis by (simp add: registered_def assms(4,8))
  next
    case False
    with assms(1) q show ?thesis by (simp add: inv_def registered_def assms(4,7))
  qed
qed

lemma inv_handle: "inv s \<Longrightarrow> inv (handle ev now s)"
proof (cases "conn_map s (endpoint_of (ev_addr ev))")
  case None
  then show "inv s \<Longrightarrow> ?thesis" by (simp add: handle_unknown inv_def registered_def)
next
  case (Some p)
  assume i: "inv s"
  note l = inv_lookup [OF i Some]
  show ?thesis
  proof (cases "ev_type ev")
    case CONNECTION_ESTABLISHED
    show ?thesis
      by (rule inv_touch [OF i conjunct2 [OF l] conjunct1 [OF l]])
        (auto simp: handle_established [OF Some CONNECTION_ESTABLISHED])
  next
    case DISCONNECT
    then have f: "ev_type ev = ERROR \<or> ev_type ev = DISCONNECT" by simp
    show ?thesis
      by (rule inv_touch [OF i conjunct2 [OF l] conjunct1 [OF l]])
        (auto simp: handle_failure [OF Some f])
  next
    case MESSAGE
    show ?thesis
      by (rule inv_touch [OF i conjunct2 [OF l] conjunct1 [OF l]])
        (auto simp: handle_other [OF Some MESSAGE])
  next
    case ERROR
    then have f: "ev_type ev = ERROR \<or> ev_type ev = DISCONNECT" by simp
    show ?thesis
      by (rule inv_touch [OF i conjunct2 [OF l] conjunct1 [OF l]])
        (auto simp: handle_failure [OF Some f])
  qed
qed

lemma inv_pop: "inv s \<Longrightarrow> inv (pop p s)"
  unfolding inv_def registered_def by (auto dest: notin_set_remove1)

lemma registered_pop [simp]: "registered (pop p s) q = registered s q"
  by (simp add: registered_def)

lemma inv_top_registered:
  assumes "inv s" and "retry_queue s = q # qs"
    and "\<not> connected (objs s (queue_top (objs s) q qs))"
  shows "registered s (queue_top (objs s) q qs)" and "queue_top (objs s) q qs < next_obj s"
proof -
  have "queue_top (objs s) q qs \<in> set (retry_queue s)"
    using queue_top_in [of "objs s" q qs] assms(2) by simp
  with assms(1) show lt: "queue_top (objs s) q qs < next_obj s" by (simp add: inv_def)
  with assms(1,3) show "registered s (queue_top (objs s) q qs)" by (auto simp: inv_def)
qed

lemma inv_worker: "inv s \<Longrightarrow> inv (worker_iteration now env s)"
  unfolding worker_iteration_def Let_def
  by (auto simp: inv_pop inv_top_registered intro!: inv_scr split: list.split)
    (simp_all add: inv_def registered_def)

lemma inv_step: "inv s \<Longrightarrow> inv (step x s)"
  by (cases x) (simp_all add: inv_add inv_add_local inv_remove inv_handle inv_worker)

lemma inv_run: "inv s \<Longrightarrow> inv (run xs s)"
  by (induction xs arbitrary: s) (simp_all add: inv_step)

lemma worker_stale:
  "\<not> shutdown s \<Longrightarrow> retry_queue s = q # qs \<Longrightarrow> connected (objs s (queue_top (objs s) q qs)) \<Longrightarrow>
   worker_iteration now env s = pop (queue_top (objs s) q qs) s"
  by (simp add: worker_iteration_def Let_def)

lemma connect_dest_connect_call [simp]: "connect_dest (connect_call cs) = Some (addr cs)"
  by (simp add: connect_call_def)

lemma scr_dests:
  "e \<in> set (new_effects s (send_connect_request p env s)) \<Longrightarrow> connect_dest e = Some b \<Longrightarrow>
   b = addr (objs s p)"
  by (cases "connect_ret env") (auto simp: scr_ok scr_ac scr_fail new_effects_def error_line_def)

lemma new_effects_pop [simp]: "new_effects (pop p s) s' = new_effects s s'"
  by (simp add: new_effects_def)

lemma worker_dests:
  assumes "inv s" and "e \<in> set (new_effects s (worker_iteration now env s))"
    and "connect_dest e = Some b"
  shows "\<exists>p. conn_map s (endpoint_of b) = Some p \<and> addr (objs s p) = b
            \<and> \<not> connected (objs s p) \<and> p \<in> set (retry_queue s)"
proof (cases "retry_queue s")
  case Nil
  with assms(2,3) show ?thesis
    by (auto simp: worker_iteration_def new_effects_def split: if_splits)
next
  case (Cons q qs)
  let ?p = "queue_top (objs s) q qs"
  have mem: "?p \<in> set (retry_queue s)" using queue_top_in [of "objs s" q qs] Cons by simp
  show ?thesis
  proof (cases "\<not> shutdown s \<and> \<not> connected (objs s ?p) \<and> xtime_cmp (next_retry (objs s ?p)) now \<le> 0")
    case True
    then have w: "worker_iteration now env s = send_connect_request ?p env (pop ?p s)"
      by (simp add: worker_iteration_def Cons Let_def)
    from assms(2) have "e \<in> set (new_effects (pop ?p s) (send_connect_request ?p env (pop ?p s)))"
      by (simp add: w)
    from scr_dests [OF this assms(3)] have b: "b = addr (objs s ?p)" by simp
    from True have nc: "\<not> connected (objs s ?p)" by simp
    from inv_top_registered [OF assms(1) Cons nc] have "registered s ?p" by simp
    with b nc mem show ?thesis by (auto simp: registered_def)
  next
    case False
    with assms(2,3) show ?thesis
      by (auto simp: worker_iteration_def Cons new_effects_def Let_def split: if_splits)
  qed
qed

section \<open>The trace of each operation\<close>

lemma trace_scr: "trace (send_connect_request p env s) = trace s @ scr_effects (objs s p) p env"
  by (cases "connect_ret env") (simp_all add: scr_ok scr_ac scr_fail scr_effects_def)

lemma scr_effects_cong:
  "addr c = addr d \<Longrightarrow> local_addr c = local_addr d \<Longrightarrow> service_name c = service_name d \<Longrightarrow>
   timeout_ms c = timeout_ms d \<Longrightarrow> scr_effects c p env = scr_effects d p env"
  by (simp add: scr_effects_def connect_call_def error_line_def split: error.split)

lemma scr_effects_after:
  "scr_effects (objs s p) p env = scr_effects (objs (send_connect_request p env s) p) p env"
  by (rule scr_effects_cong) (simp_all add: scr_immutable)

lemma new_add:
  "new_effects s (add a tmo name h now env s) =
     (if conn_map s (endpoint_of a) = None
      then scr_effects (objs (add a tmo name h now env s) (next_obj s)) (next_obj s) env else [])"
  by (simp add: add_def Let_def new_effects_def trace_scr scr_effects_after [symmetric])

lemma new_add_local:
  "new_effects s (add_local a la tmo name h now env s) =
     (if conn_map s (endpoint_of a) = None
      then scr_effects (objs (add_local a la tmo name h now env s) (next_obj s)) (next_obj s) env
      else [])"
  by (simp add: add_local_def Let_def new_effects_def trace_scr scr_effects_after [symmetric])

lemma new_worker:
  "new_effects s (worker_iteration now env s) =
     (case connect_target (Worker now env) s of
        Some p \<Rightarrow> scr_effects (objs (worker_iteration now env s) p) p env
      | None \<Rightarrow>
          if shutdown s then []
          else
            (case retry_queue s of
               [] \<Rightarrow> [RetryCondWait]
             | q # qs \<Rightarrow>
                 if connected (objs s (queue_top (objs s) q qs)) then []
                 else [RetryCondTimedWait (next_retry (objs s (queue_top (objs s) q qs)))]))"
proof (cases "connect_target (Worker now env) s")
  case None
  then show ?thesis
    by (auto simp: worker_iteration_def new_effects_def Let_def split: list.splits if_splits)
next
  case (Some p)
  then obtain q qs where q: "retry_queue s = q # qs" "p = queue_top (objs s) q qs"
    "\<not> shutdown s" "\<not> connected (objs s p)" "xtime_cmp (next_retry (objs s p)) now \<le> 0"
    by (auto split: if_splits list.splits)
  then have w: "worker_iteration now env s = send_connect_request p env (pop p s)"
    by (simp add: worker_iteration_def Let_def)
  have "scr_effects (objs (pop p s) p) p env
        = scr_effects (objs (send_connect_request p env (pop p s)) p) p env"
    by (rule scr_effects_after)
  then show ?thesis
    unfolding Some by (simp add: w new_effects_def trace_scr)
qed

lemma new_remove:
  "new_effects s (snd (remove a r s)) =
     (case conn_map s (endpoint_of a) of
        None \<Rightarrow> []
      | Some p \<Rightarrow> if connected (objs s p) then [CommCloseSocket a] else [SetConnected p True])"
  by (auto simp: remove_absent remove_connected remove_disconnected new_effects_def
      split: option.split)

lemma new_handle:
  "new_effects s (handle ev now s) =
     (case conn_map s (endpoint_of (ev_addr ev)) of
        None \<Rightarrow> [LogWarn (ev_addr ev)]
      | Some p \<Rightarrow>
          (case ev_type ev of
             CONNECTION_ESTABLISHED \<Rightarrow> [SetConnected p True, CondNotifyAll p]
           | MESSAGE \<Rightarrow> []
           | _ \<Rightarrow> info_line (quiet_mode s) (objs s p) ev
                   @ [SetConnected p False, RetryCondNotifyOne])
          @ forwarded (objs s p) ev)"
  by (auto simp: handle_unknown handle_established handle_failure handle_other new_effects_def
      split: option.split event_type.split)

lemma scr_effects_notify:
  "CondNotifyAll q \<in> set (scr_effects cs p env) \<longleftrightarrow>
     q = p \<and> connect_ret env = COMM_ALREADY_CONNECTED"
  by (auto simp: scr_effects_def connect_call_def error_line_def split: error.split)

lemma scr_effects_set_connected:
  "SetConnected q b \<in> set (scr_effects cs p env) \<longleftrightarrow>
     q = p \<and> b \<and> connect_ret env = COMM_ALREADY_CONNECTED"
  by (auto simp: scr_effects_def connect_call_def error_line_def split: error.split)

lemma scr_effects_shape:
  "connect_ret env = COMM_ALREADY_CONNECTED \<Longrightarrow>
   scr_effects cs p env = [connect_call cs] @ [SetConnected p True, CondNotifyAll p] @ []"
  by (simp add: scr_effects_def)

lemma scr_effects_connects:
  "\<exists>es. scr_effects cs p env = connect_call cs # es \<and> (\<forall>e \<in> set es. \<not> is_connect e)"
  by (simp add: scr_effects_def error_line_def split: error.split)

lemma new_step_target:
  assumes "connect_target x s = Some p"
  shows "\<exists>env. op_connect_ret x = Some (connect_ret env)
           \<and> new_effects s (step x s) = scr_effects (objs (step x s) p) p env
           \<and> (connect_ret env = COMM_ALREADY_CONNECTED \<longrightarrow> connected (objs (step x s) p))"
proof (cases x)
  case (Add a tmo name h now env)
  with assms have f: "conn_map s (endpoint_of a) = None" "p = next_obj s"
    by (auto split: if_splits)
  have "connect_ret env = COMM_ALREADY_CONNECTED \<longrightarrow> connected (objs (step x s) p)"
    using f by (simp add: Add add_def Let_def scr_ac)
  then show ?thesis using f by (auto simp: Add new_add)
next
  case (AddLocal a la tmo name h now env)
  with assms have f: "conn_map s (endpoint_of a) = None" "p = next_obj s"
    by (auto split: if_splits)
  have "connect_ret env = COMM_ALREADY_CONNECTED \<longrightarrow> connected (objs (step x s) p)"
    using f by (simp add: AddLocal add_local_def Let_def scr_ac)
  then show ?thesis using f by (auto simp: AddLocal new_add_local)
next
  case (Remove a r)
  with assms show ?thesis by simp
next
  case (Handle ev now)
  with assms show ?thesis by simp
next
  case (Worker now env)
  from assms obtain q qs where q: "retry_queue s = q # qs" "p = queue_top (objs s) q qs"
    "\<not> shutdown s" "\<not> connected (objs s p)" "xtime_cmp (next_retry (objs s p)) now \<le> 0"
    unfolding Worker by (auto split: if_splits list.splits)
  then have w: "worker_iteration now env s = send_connect_request p env (pop p s)"
    by (simp add: worker_iteration_def Let_def)
  have "connect_ret env = COMM_ALREADY_CONNECTED \<longrightarrow> connected (objs (step x s) p)"
    by (simp add: Worker w scr_ac)
  moreover have "new_effects s (step x s) = scr_effects (objs (step x s) p) p env"
    using new_worker [of s now env] assms by (simp add: Worker)
  ultimately show ?thesis by (auto simp: Worker)
qed

lemma forwarded_plain [simp]:
  "CondNotifyAll q \<notin> set (forwarded cs ev)" "SetConnected q b \<notin> set (forwarded cs ev)"
  "\<forall>e \<in> set (forwarded cs ev). \<not> is_connect e"
  by (auto simp: forwarded_def split: option.split)

lemma info_line_plain [simp]:
  "CondNotifyAll q \<notin> set (info_line qm cs ev)" "SetConnected q b \<notin> set (info_line qm cs ev)"
  "\<forall>e \<in> set (info_line qm cs ev). \<not> is_connect e"
  by (simp_all add: info_line_def)

lemma new_step_no_target:
  assumes "connect_target x s = None"
  shows "(CondNotifyAll p \<in> set (new_effects s (step x s)) \<longleftrightarrow>
           (\<exists>ev now. x = Handle ev now \<and> ev_type ev = CONNECTION_ESTABLISHED
               \<and> conn_map s (endpoint_of (ev_addr ev)) = Some p))
       \<and> (CondNotifyAll p \<in> set (new_effects s (step x s)) \<longrightarrow>
            connected (objs (step x s) p)
          \<and> (\<exists>es es'. new_effects s (step x s) = es @ [SetConnected p True, CondNotifyAll p] @ es'))
       \<and> (SetConnected p True \<in> set (new_effects s (step x s)) \<longrightarrow>
            CondNotifyAll p \<in> set (new_effects s (step x s)) \<or> (\<exists>a r. x = Remove a r))
       \<and> (\<forall>e \<in> set (new_effects s (step x s)). \<not> is_connect e)"
proof (cases x)
  case (Add a tmo name h now env)
  with assms obtain y where "conn_map s (endpoint_of a) = Some y" by (auto split: if_splits)
  then show ?thesis by (simp add: Add new_add)
next
  case (AddLocal a la tmo name h now env)
  with assms obtain y where "conn_map s (endpoint_of a) = Some y" by (auto split: if_splits)
  then show ?thesis by (simp add: AddLocal new_add_local)
next
  case (Remove a r)
  show ?thesis by (auto simp: Remove new_remove split: option.splits)
next
  case (Handle ev now)
  show ?thesis
  proof (cases "conn_map s (endpoint_of (ev_addr ev))")
    case None
    then show ?thesis by (simp add: Handle new_handle)
  next
    case (Some q)
    show ?thesis
    proof (cases "ev_type ev = CONNECTION_ESTABLISHED")
      case True
      have "new_effects s (step x s) = [] @ [SetConnected q True, CondNotifyAll q] @ forwarded (objs s q) ev"
        by (simp add: Handle new_handle Some True)
      moreover have "connected (objs (step x s) q)"
        by (simp add: Handle handle_established [OF Some True])
      ultimately show ?thesis using Some True by (auto simp: Handle simp del: append.simps)
    next
      case False
      then show ?thesis by (auto simp: Handle new_handle Some split: event_type.splits)
    qed
  qed
next
  case (Worker now env)
  with assms have "connect_target (Worker now env) s = None" by simp
  with new_worker [of s now env] show ?thesis
    by (auto simp: Worker split: list.splits if_splits)
qed

lemma scr_flag:
  "connected (objs (send_connect_request p env s) q) \<longleftrightarrow>
     connected (objs s q) \<or> (q = p \<and> connect_ret env = COMM_ALREADY_CONNECTED)"
  by (cases "connect_ret env") (auto simp: scr_ok scr_ac scr_fail)

lemma flag_change_traced:
  assumes "\<not> connected (objs s p)" and "connected (objs (step x s) p)"
  shows "SetConnected p True \<in> set (new_effects s (step x s))"
proof (cases x)
  case (Add a tmo name h now env)
  show ?thesis
  proof (cases "conn_map s (endpoint_of a)")
    case None
    with assms have "p = next_obj s \<and> connect_ret env = COMM_ALREADY_CONNECTED"
      by (auto simp: Add add_def Let_def scr_flag split: if_splits)
    with None show ?thesis
      by (simp add: Add new_add scr_effects_set_connected)
  next
    case (Some q)
    with assms show ?thesis by (simp add: Add add_def)
  qed
next
  case (AddLocal a la tmo name h now env)
  show ?thesis
  proof (cases "conn_map s (endpoint_of a)")
    case None
    with assms have "p = next_obj s \<and> connect_ret env = COMM_ALREADY_CONNECTED"
      by (auto simp: AddLocal add_local_def Let_def scr_flag split: if_splits)
    with None show ?thesis
      by (simp add: AddLocal new_add_local scr_effects_set_connected)
  next
    case (Some q)
    with assms show ?thesis by (simp add: AddLocal add_local_def)
  qed
next
  case (Remove a r)
  show ?thesis
  proof (cases "conn_map s (endpoint_of a)")
    case None
    with assms show ?thesis by (simp add: Remove remove_absent)
  next
    case (Some q)
    with assms show ?thesis
      by (cases "connected (objs s q)")
        (auto simp: Remove remove_connected remove_disconnected new_effects_def split: if_splits)
  qed
next
  case (Handle ev now)
  show ?thesis
  proof (cases "conn_map s (endpoint_of (ev_addr ev))")
    case None
    with assms show ?thesis by (simp add: Handle handle_unknown)
  next
    case (Some q)
    with assms show ?thesis
      by (cases "ev_type ev")
        (auto simp: Handle handle_established handle_failure handle_other new_effects_def
          split: if_splits)
  qed
next
  case (Worker now env)
  show ?thesis
  proof (cases "connect_target (Worker now env) s")
    case None
    with assms show ?thesis
      by (auto simp: Worker worker_iteration_def Let_def split: if_splits list.splits)
  next
    case (Some q)
    from new_step_target [OF Some] obtain env' where
      e: "connect_ret env = connect_ret env'"
        "new_effects s (worker_iteration now env s)
           = scr_effects (objs (worker_iteration now env s) q) q env'"
      by auto
    from Some obtain a qs where q: "retry_queue s = a # qs" "q = queue_top (objs s) a qs"
      "\<not> shutdown s" "\<not> connected (objs s q)" "xtime_cmp (next_retry (objs s q)) now \<le> 0"
      by (auto split: if_splits list.splits)
    then have w: "worker_iteration now env s = send_connect_request q env (pop q s)"
      by (simp add: worker_iteration_def Let_def)
    from assms have "p = q \<and> connect_ret env = COMM_ALREADY_CONNECTED"
      by (simp add: Worker w scr_flag)
    then show ?thesis
      by (simp add: Worker e scr_effects_set_connected)
  qed
qed

section \<open>Local addresses with port zero are not observed\<close>

lemma same_unbound_refl [simp]: "same_unbound c c"
  by (simp add: same_unbound_def)

lemma sim_refl [simp]: "sim s s"
  by (simp add: sim_def)

lemma connect_call_sim: "same_unbound c d \<Longrightarrow> connect_call c = connect_call d"
  by (auto simp: same_unbound_def connect_call_def)

lemma error_line_sim: "same_unbound c d \<Longrightarrow> error_line c e = error_line d e"
  by (simp add: same_unbound_def error_line_def)

lemma same_unbound_upd:
  "same_unbound c d \<Longrightarrow> same_unbound (c\<lparr>connected := b\<rparr>) (d\<lparr>connected := b\<rparr>)"
  "same_unbound c d \<Longrightarrow> same_unbound (c\<lparr>next_retry := u\<rparr>) (d\<lparr>next_retry := u\<rparr>)"
  by (simp_all add: same_unbound_def)

lemma simD:
  assumes "sim s t"
  shows "conn_map s = conn_map t" "retry_queue s = retry_queue t" "quiet_mode s = quiet_mode t"
    "shutdown s = shutdown t" "next_obj s = next_obj t" "trace s = trace t"
    "same_unbound (objs s p) (objs t p)"
    "connected (objs s p) = connected (objs t p)" "addr (objs s p) = addr (objs t p)"
    "timeout_ms (objs s p) = timeout_ms (objs t p)" "handler (objs s p) = handler (objs t p)"
    "service_name (objs s p) = service_name (objs t p)"
    "next_retry (objs s p) = next_retry (objs t p)"
  using assms by (simp_all add: sim_def same_unbound_def)

lemma sim_scr:
  assumes "sim s t"
  shows "sim (send_connect_request p env s) (send_connect_request p env t)"
proof (cases "connect_ret env")
  case OK
  with assms show ?thesis
    by (simp add: scr_ok sim_def connect_call_sim)
next
  case COMM_ALREADY_CONNECTED
  with assms show ?thesis
    by (simp add: scr_ac sim_def connect_call_sim same_unbound_upd)
next
  case (Failure n)
  with assms show ?thesis
    by (simp add: scr_fail sim_def connect_call_sim error_line_sim same_unbound_upd
        simD(10) [OF assms])
qed

lemma sim_alloc:
  assumes "sim s t" and "same_unbound c d"
  shows "sim (s\<lparr>objs := (objs s)(n := c), next_obj := n', conn_map := m\<rparr>)
             (t\<lparr>objs := (objs t)(n := d), next_obj := n', conn_map := m\<rparr>)"
  using assms by (simp add: sim_def)

lemma sim_add:
  assumes "sim s t"
  shows "sim (add a tmo name h now env s) (add a tmo name h now env t)"
  using assms simD(1,5) [OF assms]
  by (auto simp: add_def Let_def intro!: sim_scr sim_alloc)

lemma sim_add_local:
  assumes "sim s t"
  shows "sim (add_local a la tmo name h now env s) (add_local a la tmo name h now env t)"
  using assms simD(1,5) [OF assms]
  by (auto simp: add_local_def Let_def intro!: sim_scr sim_alloc)

lemma sim_add_local_add:
  assumes "sim s t" and "sin_port la = 0"
  shows "sim (add_local a la tmo name h now env s) (add a tmo name h now env t)"
  using assms simD(1,5) [OF assms(1)]
  by (auto simp: add_local_def add_def Let_def same_unbound_def zero_sockaddr_def
      intro!: sim_scr sim_alloc)

lemma sim_remove:
  assumes "sim s t"
  shows "fst (remove a r s) = fst (remove a r t)"
    and "sim (snd (remove a r s)) (snd (remove a r t))"
proof -
  have m: "conn_map t = conn_map s" by (simp add: simD(1) [OF assms])
  show "fst (remove a r s) = fst (remove a r t)"
  proof (cases "conn_map s (endpoint_of a)")
    case None
    then show ?thesis by (simp add: remove_absent m)
  next
    case (Some p)
    then show ?thesis
      using simD(8) [OF assms, of p]
      by (cases "connected (objs s p)") (simp_all add: remove_connected remove_disconnected m)
  qed
  show "sim (snd (remove a r s)) (snd (remove a r t))"
  proof (cases "conn_map s (endpoint_of a)")
    case None
    then show ?thesis using assms by (simp add: remove_absent m)
  next
    case (Some p)
    then show ?thesis
      using simD(8) [OF assms, of p] assms
      by (cases "connected (objs s p)")
        (simp_all add: remove_connected remove_disconnected m sim_def same_unbound_upd)
  qed
qed

lemma forwarded_sim: "same_unbound c d \<Longrightarrow> forwarded c ev = forwarded d ev"
  by (simp add: forwarded_def same_unbound_def)

lemma info_line_sim: "same_unbound c d \<Longrightarrow> info_line q c ev = info_line q d ev"
  by (simp add: info_line_def same_unbound_def)

lemma same_unbound_upd2:
  "same_unbound c d \<Longrightarrow>
   same_unbound (c\<lparr>connected := b, next_retry := u\<rparr>) (d\<lparr>connected := b, next_retry := u\<rparr>)"
  by (simp add: same_unbound_def)

lemma sim_handle:
  assumes "sim s t"
  shows "sim (handle ev now s) (handle ev now t)"
proof -
  have m: "conn_map t = conn_map s" by (simp add: simD(1) [OF assms])
  show ?thesis
  proof (cases "conn_map s (endpoint_of (ev_addr ev))")
    case None
    then show ?thesis using assms by (simp add: handle_unknown m sim_def)
  next
    case (Some p)
    then have Some': "conn_map t (endpoint_of (ev_addr ev)) = Some p" by (simp add: m)
    note u = simD(7) [OF assms, of p]
    show ?thesis
    proof (cases "ev_type ev")
      case CONNECTION_ESTABLISHED
      show ?thesis using assms
        by (simp add: handle_established [OF Some CONNECTION_ESTABLISHED]
            handle_established [OF Some' CONNECTION_ESTABLISHED] sim_def forwarded_sim [OF u]
            same_unbound_upd)
    next
      case DISCONNECT
      then have f: "ev_type ev = ERROR \<or> ev_type ev = DISCONNECT" by simp
      show ?thesis using assms
        by (simp add: handle_failure [OF Some f] handle_failure [OF Some' f] sim_def
            forwarded_sim [OF u] info_line_sim [OF u] same_unbound_upd2 simD(10) [OF assms])
    next
      case MESSAGE
      show ?thesis using assms
        by (simp add: handle_other [OF Some MESSAGE] handle_other [OF Some' MESSAGE] sim_def
            forwarded_sim [OF u])
    next
      case ERROR
      then have f: "ev_type ev = ERROR \<or> ev_type ev = DISCONNECT" by simp
      show ?thesis using assms
        by (simp add: handle_failure [OF Some f] handle_failure [OF Some' f] sim_def
            forwarded_sim [OF u] info_line_sim [OF u] same_unbound_upd2 simD(10) [OF assms])
    qed
  qed
qed

lemma queue_top_sim:
  "\<forall>p. next_retry (os p) = next_retry (os' p) \<Longrightarrow> queue_top os q qs = queue_top os' q qs"
  by (induction qs arbitrary: q) simp_all

lemma sim_pop: "sim s t \<Longrightarrow> sim (pop p s) (pop p t)"
  by (simp add: sim_def)

lemma sim_emit: "sim s t \<Longrightarrow> sim (emit e s) (emit e t)"
  by (simp add: sim_def)

lemma sim_worker:
  assumes "sim s t"
  shows "sim (worker_iteration now env s) (worker_iteration now env t)"
proof -
  have top: "queue_top (objs s) q qs = queue_top (objs t) q qs" for q qs
    by (rule queue_top_sim) (simp add: simD(13) [OF assms])
  show ?thesis
    using assms
    by (auto simp: worker_iteration_def Let_def top simD(2,4,8,13) [OF assms]
        intro!: sim_scr sim_pop sim_emit split: list.split)
qed

lemma sim_step: "sim s t \<Longrightarrow> sim (step x s) (step x t)"
  by (cases x) (simp_all add: sim_add sim_add_local sim_remove sim_handle sim_worker)

lemma sim_run: "sim s t \<Longrightarrow> sim (run xs s) (run xs t)"
  by (induction xs arbitrary: s t) (simp_all add: sim_step)

lemma sim_timed_wait: "sim s t \<Longrightarrow> sim (timed_wait p w s) (timed_wait p w t)"
  by (simp add: timed_wait_def sim_run sim_emit)

lemma sim_wait_loop:
  "sim s t \<Longrightarrow>
   rel_option (\<lambda>x y. fst x = fst y \<and> sim (snd x) (snd y)) (wait_loop p ws s) (wait_loop p ws t)"
proof (induction ws arbitrary: s t)
  case Nil
  then show ?case using simD(8) [OF Nil, of p] by simp
next
  case (Cons w ws)
  have c: "connected (objs s p) = connected (objs t p)" by (rule simD(8) [OF Cons.prems])
  have "sim (timed_wait p w s) (timed_wait p w t)"
    by (rule sim_timed_wait [OF Cons.prems])
  with Cons.IH Cons.prems c show ?case by (simp add: Let_def)
qed

lemma sim_wait:
  assumes "sim s t"
  shows "map_option fst (wait_for_connection a gap ws s)
         = map_option fst (wait_for_connection a gap ws t)"
proof (cases "conn_map s (endpoint_of a)")
  case None
  then show ?thesis using simD(1) [OF assms] by (simp add: wait_for_connection_def)
next
  case (Some p)
  then have "conn_map t (endpoint_of a) = Some p" using simD(1) [OF assms] by simp
  with Some sim_wait_loop [OF sim_run [OF assms], of p ws gap] show ?thesis
    by (auto simp: wait_for_connection_def option.rel_sel split: option.splits)
qed

section \<open>Facts about the wait loop\<close>

lemma wait_loop_connected: "connected (objs s p) \<Longrightarrow> wait_loop p ws s = Some (True, s)"
  by (cases ws) simp_all

lemma wait_loop_true: "wait_loop p ws s = Some (True, s') \<Longrightarrow> connected (objs s' p)"
  by (induction p ws s rule: wait_loop.induct) (auto simp: Let_def split: if_splits)

lemma wait_loop_returns:
  "\<exists>w \<in> set ws. \<not> wk_signalled w \<Longrightarrow> wait_loop p ws s \<noteq> None"
  by (induction p ws s rule: wait_loop.induct) (auto simp: Let_def)

section \<open>Registration\<close>

text \<open>
  Claim C1. An \<^verbatim>\<open>add\<close> (either overload) for an address whose endpoint is already in the
  registry returns the state as it was: no record is created and no connect is issued.
  Hence two \<^verbatim>\<open>add\<close>s for the same endpoint on a registry that did not hold it
  leave one record for it (the object allocated by the first call, and no other object
  was allocated) and call the comm layer's connect exactly once.
\<close>

theorem add_idempotent:
  assumes "adds_addr x = Some a" and "adds_addr y = Some b"
    and "endpoint_of b = endpoint_of a"
  shows "(conn_map s (endpoint_of a) \<noteq> None \<longrightarrow> step x s = s)
       \<and> (conn_map s (endpoint_of a) = None \<longrightarrow>
            step y (step x s) = step x s
          \<and> conn_map (run [x, y] s) = (conn_map s)(endpoint_of a \<mapsto> next_obj s)
          \<and> next_obj (run [x, y] s) = Suc (next_obj s)
          \<and> addr (objs (run [x, y] s) (next_obj s)) = a
          \<and> length (filter is_connect (new_effects s (run [x, y] s))) = 1)"
proof (intro conjI impI)
  assume "conn_map s (endpoint_of a) \<noteq> None"
  with assms(1) show "step x s = s" by (rule add_again)
next
  assume fresh: "conn_map s (endpoint_of a) = None"
  note first = add_fresh [OF assms(1) fresh]
  have "conn_map (step x s) (endpoint_of b) \<noteq> None"
    using first by (simp add: assms(3))
  with assms(2) have second: "step y (step x s) = step x s" by (rule add_again)
  then show "step y (step x s) = step x s" .
  from second have r: "run [x, y] s = step x s" by simp
  show "conn_map (run [x, y] s) = (conn_map s)(endpoint_of a \<mapsto> next_obj s)"
    "next_obj (run [x, y] s) = Suc (next_obj s)"
    "addr (objs (run [x, y] s) (next_obj s)) = a"
    "length (filter is_connect (new_effects s (run [x, y] s))) = 1"
    unfolding r using first by blast+
qed

theorem add_idempotent_witness:
  "step (add_peer OK) (step (add_peer OK) (initial False)) = step (add_peer OK) (initial False)
   \<and> next_obj (run [add_peer OK, add_peer OK] (initial False)) = 1
   \<and> length (filter is_connect
        (new_effects (initial False) (run [add_peer OK, add_peer OK] (initial False)))) = 1"
proof -
  have a: "adds_addr (add_peer OK) = Some peer" by (simp add: add_peer_def)
  have fresh: "conn_map (initial False) (endpoint_of peer) = None" by (simp add: initial_def)
  have n: "next_obj (initial False) = 0" by (simp add: initial_def)
  from add_idempotent [OF a a refl, of "initial False"] fresh n show ?thesis by auto
qed

section \<open>Synchronous connect results\<close>

text \<open>
  Claim C2 says that the jitter is drawn uniformly from \<open>[0, 2000)\<close> milliseconds. The
  code computes it as \<^verbatim>\<open>System::rand32() % 2000\<close>, and 2000 does not divide the number of
  32-bit values: with everything else fixed (clock 7 s, timeout 0, a failing connect), the
  retry time with jitter 0 ms is the outcome of 2147484 of the values of \<^verbatim>\<open>rand32()\<close> and
  the retry times with jitter 1999 ms of 2147483, so even a uniform generator does not
  make the jitter uniform.
\<close>

theorem jitter_not_uniform_counterexample:
  "card {r :: 32 word.
      \<bar>next_retry (objs (send_connect_request 0 ((env_of (Failure 1))\<lparr>rand1 := r\<rparr>)
                        (initial False)) 0) - 7000000000\<bar> = 0} = 2147484
   \<and> card {r :: 32 word.
      \<bar>next_retry (objs (send_connect_request 0 ((env_of (Failure 1))\<lparr>rand1 := r\<rparr>)
                        (initial False)) 0) - 7000000000\<bar> = 1999000000} = 2147483
   \<and> card {r :: 32 word.
      \<bar>next_retry (objs (send_connect_request 0 ((env_of (Failure 1))\<lparr>rand1 := r\<rparr>)
                        (initial False)) 0) - 7000000000\<bar> = 0}
     \<noteq> card {r :: 32 word.
      \<bar>next_retry (objs (send_connect_request 0 ((env_of (Failure 1))\<lparr>rand1 := r\<rparr>)
                        (initial False)) 0) - 7000000000\<bar> = 1999000000}"
proof -
  have f: "connect_ret (env_of (Failure 1)) \<noteq> OK"
    "connect_ret (env_of (Failure 1)) \<noteq> COMM_ALREADY_CONNECTED"
    by (simp_all add: env_of_def)
  have due: "clock (env_of (Failure 1))
      + 1000000 * uint (timeout_ms (objs (initial False) 0)) = 7000000000"
    by (simp add: env_of_def initial_def)
  have 0: "card {r :: 32 word.
      \<bar>next_retry (objs (send_connect_request 0 ((env_of (Failure 1))\<lparr>rand1 := r\<rparr>)
                        (initial False)) 0) - 7000000000\<bar> = 0} = 2147484"
    using jitter_count [OF f, of 0 0 "initial False"] unfolding due by simp
  have 1: "card {r :: 32 word.
      \<bar>next_retry (objs (send_connect_request 0 ((env_of (Failure 1))\<lparr>rand1 := r\<rparr>)
                        (initial False)) 0) - 7000000000\<bar> = 1999000000} = 2147483"
    using jitter_count [OF f, of 1999 0 "initial False"] unfolding due by simp
  from 0 1 show ?thesis by simp
qed

text \<open>
  Claim C2, amended. When the connect issued by \<^verbatim>\<open>send_connect_request\<close> returns a status
  other than \<^verbatim>\<open>OK\<close> and \<^verbatim>\<open>COMM_ALREADY_CONNECTED\<close>, the record's \<open>next_retry\<close> becomes the
  clock plus the record's \<open>timeout_ms\<close>, moved by a jitter of \<^verbatim>\<open>rand32() % 2000\<close>
  milliseconds, which lies in \<open>[0, 2000)\<close>: subtracted when the low bit of a second
  \<^verbatim>\<open>rand32()\<close> is set, added otherwise. So \<open>next_retry\<close> is less than 2000 ms away from
  clock plus timeout, and the record is pushed onto the retry queue. Of the 32-bit values
  of the first \<^verbatim>\<open>rand32()\<close>, 2147484 give each jitter below 1296 ms and 2147483 each
  jitter from 1296 ms on, so the jitter is close to uniform but not uniform; of the values
  of the second, exactly half make the code subtract a jitter that is not zero. Time
  stamps are in nanoseconds.
\<close>

theorem send_connect_request_failure_jitter:
  assumes "connect_ret env \<noteq> OK" and "connect_ret env \<noteq> COMM_ALREADY_CONNECTED"
  shows "(let s' = send_connect_request p env s;
              due = clock env + 1000000 * uint (timeout_ms (objs s p));
              jitter = uint (rand1 env mod 2000)
          in 0 \<le> jitter \<and> jitter < 2000
           \<and> next_retry (objs s' p) =
               (if rand2 env AND 1 \<noteq> 0
                then xtime_sub_millis (xtime_add_millis (clock env) (timeout_ms (objs s p)))
                       (rand1 env mod 2000)
                else xtime_add_millis (xtime_add_millis (clock env) (timeout_ms (objs s p)))
                       (rand1 env mod 2000))
           \<and> next_retry (objs s' p) =
               (if rand2 env AND 1 \<noteq> 0 then due - 1000000 * jitter else due + 1000000 * jitter)
           \<and> \<bar>next_retry (objs s' p) - due\<bar> < 2000 * 1000000
           \<and> retry_queue s' = retry_queue s @ [p]
           \<and> (\<forall>j < 2000.
                card {r :: 32 word.
                  \<bar>next_retry (objs (send_connect_request p (env\<lparr>rand1 := r\<rparr>) s) p) - due\<bar>
                    = 1000000 * int j}
                = (if j < 1296 then 2147484 else 2147483))
           \<and> (jitter \<noteq> 0 \<longrightarrow>
                card {r :: 32 word.
                  next_retry (objs (send_connect_request p (env\<lparr>rand2 := r\<rparr>) s) p) < due}
                = 2147483648))"
proof -
  have j: "uint (rand1 env mod 2000) < 2000" by (rule jitter_bound)
  have base: "0 \<le> uint (rand1 env mod 2000) \<and> uint (rand1 env mod 2000) < 2000
      \<and> next_retry (objs (send_connect_request p env s) p) =
          (if rand2 env AND 1 \<noteq> 0
           then xtime_sub_millis (xtime_add_millis (clock env) (timeout_ms (objs s p)))
                  (rand1 env mod 2000)
           else xtime_add_millis (xtime_add_millis (clock env) (timeout_ms (objs s p)))
                  (rand1 env mod 2000))
      \<and> next_retry (objs (send_connect_request p env s) p) =
          (if rand2 env AND 1 \<noteq> 0
           then clock env + 1000000 * uint (timeout_ms (objs s p))
                  - 1000000 * uint (rand1 env mod 2000)
           else clock env + 1000000 * uint (timeout_ms (objs s p))
                  + 1000000 * uint (rand1 env mod 2000))
      \<and> \<bar>next_retry (objs (send_connect_request p env s) p)
           - (clock env + 1000000 * uint (timeout_ms (objs s p)))\<bar> < 2000 * 1000000
      \<and> retry_queue (send_connect_request p env s) = retry_queue s @ [p]"
    using j by (simp add: scr_fail [OF assms] jitter_retry_def xtime_add_millis_def
        xtime_sub_millis_def)
  have magnitude: "\<forall>j < 2000.
      card {r :: 32 word.
        \<bar>next_retry (objs (send_connect_request p (env\<lparr>rand1 := r\<rparr>) s) p)
          - (clock env + 1000000 * uint (timeout_ms (objs s p)))\<bar> = 1000000 * int j}
      = (if j < 1296 then 2147484 else 2147483)"
    using jitter_count [OF assms] by blast
  have sign: "uint (rand1 env mod 2000) \<noteq> 0 \<longrightarrow>
      card {r :: 32 word.
        next_retry (objs (send_connect_request p (env\<lparr>rand2 := r\<rparr>) s) p)
          < clock env + 1000000 * uint (timeout_ms (objs s p))} = 2147483648"
    using sign_count [OF assms, of p s] by (auto simp: uint_0_iff)
  from base magnitude sign show ?thesis unfolding Let_def by blast
qed

theorem send_connect_request_failure_jitter_witness:
  "next_retry (objs (send_connect_request 0 (env_of (Failure 1))
                       ((initial False)\<lparr>objs := (objs (initial False))
                          (0 := (objs (initial False) 0)\<lparr>timeout_ms := 5000\<rparr>)\<rparr>)) 0)
     = 11679000000
   \<and> \<bar>next_retry (objs (send_connect_request 0 (env_of (Failure 1))
                       ((initial False)\<lparr>objs := (objs (initial False))
                          (0 := (objs (initial False) 0)\<lparr>timeout_ms := 5000\<rparr>)\<rparr>)) 0)
        - 12000000000\<bar> < 2000 * 1000000
   \<and> retry_queue (send_connect_request 0 (env_of (Failure 1))
                       ((initial False)\<lparr>objs := (objs (initial False))
                          (0 := (objs (initial False) 0)\<lparr>timeout_ms := 5000\<rparr>)\<rparr>)) = [0]"
proof -
  define s0 where "s0 = (initial False)\<lparr>objs := (objs (initial False))
                          (0 := (objs (initial False) 0)\<lparr>timeout_ms := 5000\<rparr>)\<rparr>"
  have f: "connect_ret (env_of (Failure 1)) \<noteq> OK"
    "connect_ret (env_of (Failure 1)) \<noteq> COMM_ALREADY_CONNECTED"
    by (simp_all add: env_of_def)
  have v: "clock (env_of (Failure 1)) + 1000000 * uint (timeout_ms (objs s0 0)) = 12000000000"
    "uint (rand1 (env_of (Failure 1)) mod 2000) = 321"
    "rand2 (env_of (Failure 1)) AND 1 \<noteq> 0" "retry_queue s0 = []"
    by (simp_all add: env_of_def s0_def initial_def)
  from send_connect_request_failure_jitter [OF f, of 0 s0, unfolded Let_def]
  have "next_retry (objs (send_connect_request 0 (env_of (Failure 1)) s0) 0) =
          (if rand2 (env_of (Failure 1)) AND 1 \<noteq> 0
           then clock (env_of (Failure 1)) + 1000000 * uint (timeout_ms (objs s0 0))
                  - 1000000 * uint (rand1 (env_of (Failure 1)) mod 2000)
           else clock (env_of (Failure 1)) + 1000000 * uint (timeout_ms (objs s0 0))
                  + 1000000 * uint (rand1 (env_of (Failure 1)) mod 2000))"
    and "\<bar>next_retry (objs (send_connect_request 0 (env_of (Failure 1)) s0) 0)
          - (clock (env_of (Failure 1)) + 1000000 * uint (timeout_ms (objs s0 0)))\<bar>
         < 2000 * 1000000"
    and "retry_queue (send_connect_request 0 (env_of (Failure 1)) s0) = retry_queue s0 @ [0]"
    by blast+
  then show ?thesis using v(3) unfolding v(1,2,4) s0_def [symmetric] by simp
qed

text \<open>
  Claim C9. When the connect issued by \<^verbatim>\<open>send_connect_request\<close> returns \<^verbatim>\<open>OK\<close>, the only
  change is the call itself in the trace: every record (its \<open>connected\<close> flag, its
  \<open>next_retry\<close>) is as before, and nothing is pushed onto the retry queue.
\<close>

theorem send_connect_request_OK_frame:
  "connect_ret env = OK \<Longrightarrow>
   send_connect_request p env s =
           s\<lparr>trace := trace s @ [if sin_port (local_addr (objs s p)) \<noteq> 0
                                  then CommConnectLocal (addr (objs s p)) (local_addr (objs s p))
                                  else CommConnect (addr (objs s p))]\<rparr>
   \<and> objs (send_connect_request p env s) = objs s
   \<and> retry_queue (send_connect_request p env s) = retry_queue s
   \<and> conn_map (send_connect_request p env s) = conn_map s"
  by (simp add: scr_ok connect_call_def)

theorem send_connect_request_OK_frame_witness:
  "send_connect_request 0 (env_of OK) (initial False) =
     (initial False)\<lparr>trace := [CommConnect zero_sockaddr]\<rparr>
   \<and> retry_queue (send_connect_request 0 (env_of OK) (initial False)) = []"
  using send_connect_request_OK_frame [of "env_of OK" 0 "initial False"]
  by (simp add: ex_defs)

section \<open>Events\<close>

text \<open>
  Claim C3. For an \<^verbatim>\<open>ERROR\<close> or \<^verbatim>\<open>DISCONNECT\<close> event whose address is in the registry,
  \<^verbatim>\<open>handle\<close> clears the record's \<open>connected\<close> flag, sets \<open>next_retry\<close> to exactly the clock
  plus \<open>timeout_ms\<close> (no jitter), appends the record to the retry queue and signals the
  retry condition. The trace of the call is the info line (unless in quiet mode), the
  write of the flag, the signal, and the call of the application's handler if there is
  one.
\<close>

theorem handle_error_disconnect:
  assumes "conn_map s (endpoint_of (ev_addr ev)) = Some p"
    and "ev_type ev = ERROR \<or> ev_type ev = DISCONNECT"
  shows "\<not> connected (objs (handle ev now s) p)
       \<and> next_retry (objs (handle ev now s) p) = xtime_add_millis now (timeout_ms (objs s p))
       \<and> next_retry (objs (handle ev now s) p) = now + 1000000 * uint (timeout_ms (objs s p))
       \<and> retry_queue (handle ev now s) = retry_queue s @ [p]
       \<and> RetryCondNotifyOne \<in> set (new_effects s (handle ev now s))
       \<and> new_effects s (handle ev now s) =
           info_line (quiet_mode s) (objs s p) ev
             @ [SetConnected p False, RetryCondNotifyOne] @ forwarded (objs s p) ev"
  by (simp add: handle_failure [OF assms] xtime_add_millis_def new_effects_def)

theorem handle_error_disconnect_witness:
  "\<not> connected (objs (handle \<lparr>ev_type = DISCONNECT, ev_addr = peer\<rparr> 9000000000
                       (step (add_peer OK) (initial False))) 0)
   \<and> next_retry (objs (handle \<lparr>ev_type = DISCONNECT, ev_addr = peer\<rparr> 9000000000
                       (step (add_peer OK) (initial False))) 0) = 14000000000
   \<and> retry_queue (handle \<lparr>ev_type = DISCONNECT, ev_addr = peer\<rparr> 9000000000
                       (step (add_peer OK) (initial False))) = [0]"
  using handle_error_disconnect
    [of "step (add_peer OK) (initial False)" "\<lparr>ev_type = DISCONNECT, ev_addr = peer\<rparr>" 0
        9000000000]
  by (simp add: ex_defs add_def send_connect_request_def emit_def Let_def)

text \<open>
  Claim C8. For an event whose address is not in the registry, \<^verbatim>\<open>handle\<close> logs a warning
  and does nothing else: registry, retry queue and every record are unchanged, and the
  trace gains the warning only, so no handler of the application is called.
\<close>

theorem handle_unknown_address:
  assumes "conn_map s (endpoint_of (ev_addr ev)) = None"
  shows "handle ev now s = s\<lparr>trace := trace s @ [LogWarn (ev_addr ev)]\<rparr>"
  using assms by (rule handle_unknown)

theorem handle_unknown_address_witness:
  "handle \<lparr>ev_type = CONNECTION_ESTABLISHED, ev_addr = peer\<rparr> 0 (initial False) =
     (initial False)\<lparr>trace := [LogWarn peer]\<rparr>"
  using handle_unknown_address
    [of "initial False" "\<lparr>ev_type = CONNECTION_ESTABLISHED, ev_addr = peer\<rparr>" 0]
  by (simp add: ex_defs)

section \<open>Removal\<close>

text \<open>
  Claim C5. \<^verbatim>\<open>remove\<close> of an address that is not registered returns \<^verbatim>\<open>OK\<close> and leaves
  the state unchanged. \<^verbatim>\<open>remove\<close> of a registered address erases the entry (and no other
  entry); if the record was connected, \<^verbatim>\<open>close_socket\<close> is called for the address and its
  status is returned; if the record was not connected, \<^verbatim>\<open>close_socket\<close> is not called and
  \<^verbatim>\<open>OK\<close> is returned.
\<close>

theorem remove_status:
  "(conn_map s (endpoint_of a) = None \<longrightarrow> remove a r s = (OK, s))
   \<and> (\<forall>p. conn_map s (endpoint_of a) = Some p \<longrightarrow>
          conn_map (snd (remove a r s)) = (conn_map s)(endpoint_of a := None)
        \<and> (connected (objs s p) \<longrightarrow>
              fst (remove a r s) = r
            \<and> new_effects s (snd (remove a r s)) = [CommCloseSocket a])
        \<and> (\<not> connected (objs s p) \<longrightarrow>
              fst (remove a r s) = OK
            \<and> (\<forall>b. CommCloseSocket b \<notin> set (new_effects s (snd (remove a r s))))))"
proof (intro conjI allI impI)
  assume "conn_map s (endpoint_of a) = None"
  then show "remove a r s = (OK, s)" by (rule remove_absent)
next
  fix p assume p: "conn_map s (endpoint_of a) = Some p"
  show "conn_map (snd (remove a r s)) = (conn_map s)(endpoint_of a := None)"
    using p by (cases "connected (objs s p)") (simp_all add: remove_connected remove_disconnected)
  { assume c: "connected (objs s p)"
    show "fst (remove a r s) = r" by (simp add: remove_connected [OF p c])
    show "new_effects s (snd (remove a r s)) = [CommCloseSocket a]"
      by (simp add: remove_connected [OF p c] new_effects_def) }
  { assume c: "\<not> connected (objs s p)"
    show "fst (remove a r s) = OK" by (simp add: remove_disconnected [OF p c])
    fix b show "CommCloseSocket b \<notin> set (new_effects s (snd (remove a r s)))"
      by (simp add: remove_disconnected [OF p c] new_effects_def) }
qed

theorem remove_status_witness:
  "remove peer (Failure 3) (initial False) = (OK, initial False)
   \<and> fst (remove peer (Failure 3) (step (add_peer COMM_ALREADY_CONNECTED) (initial False)))
       = Failure 3
   \<and> new_effects (step (add_peer COMM_ALREADY_CONNECTED) (initial False))
        (snd (remove peer (Failure 3) (step (add_peer COMM_ALREADY_CONNECTED) (initial False))))
       = [CommCloseSocket peer]
   \<and> fst (remove peer (Failure 3) (step (add_peer OK) (initial False))) = OK
   \<and> conn_map (snd (remove peer (Failure 3) (step (add_peer OK) (initial False))))
        (endpoint_of peer) = None"
proof -
  have absent: "conn_map (initial False) (endpoint_of peer) = None"
    by (simp add: initial_def)
  have ac: "conn_map (step (add_peer COMM_ALREADY_CONNECTED) (initial False)) (endpoint_of peer)
              = Some 0"
      "connected (objs (step (add_peer COMM_ALREADY_CONNECTED) (initial False)) 0)"
    by (simp_all add: add_peer_def add_def scr_ac env_of_def initial_def Let_def)
  have ok: "conn_map (step (add_peer OK) (initial False)) (endpoint_of peer) = Some 0"
      "\<not> connected (objs (step (add_peer OK) (initial False)) 0)"
    by (simp_all add: add_peer_def add_def scr_ok env_of_def initial_def Let_def)
  from remove_status [of "initial False" peer "Failure 3"] absent
  have 1: "remove peer (Failure 3) (initial False) = (OK, initial False)" by simp
  from remove_status [of "step (add_peer COMM_ALREADY_CONNECTED) (initial False)" peer
      "Failure 3"] ac
  have 2: "fst (remove peer (Failure 3) (step (add_peer COMM_ALREADY_CONNECTED) (initial False)))
       = Failure 3"
    "new_effects (step (add_peer COMM_ALREADY_CONNECTED) (initial False))
        (snd (remove peer (Failure 3) (step (add_peer COMM_ALREADY_CONNECTED) (initial False))))
       = [CommCloseSocket peer]" by simp_all
  from remove_status [of "step (add_peer OK) (initial False)" peer "Failure 3"] ok
  have 3: "fst (remove peer (Failure 3) (step (add_peer OK) (initial False))) = OK"
   "conn_map (snd (remove peer (Failure 3) (step (add_peer OK) (initial False))))
        (endpoint_of peer) = None" by simp_all
  from 1 2 3 show ?thesis by simp
qed

section \<open>Removed records and the retry worker\<close>

text \<open>
  Claim C6. \<^verbatim>\<open>remove\<close> of a record that is not connected sets its \<open>connected\<close> flag and
  erases it from the registry, and that write is all it adds to the trace. A pass of the
  worker that finds a connected record on top of the retry queue removes that entry from
  the queue and changes nothing else: no call of the comm layer, no log line, no signal. In every state that a run of operations reaches from a new manager, every
  allocated record that is not registered (every removed record), in the queue or not,
  has its flag set; and every connect that a pass of the worker issues is for an address
  whose endpoint is in the registry, on behalf of the registered, not connected record
  with that address. So the worker issues no reconnect for a removed record, nor for an
  endpoint that has no record in the registry.
\<close>
theorem removed_record_never_retried:
  "(conn_map t (endpoint_of a) = Some p \<and> \<not> connected (objs t p) \<longrightarrow>
      connected (objs (snd (remove a r t)) p)
    \<and> conn_map (snd (remove a r t)) (endpoint_of a) = None
    \<and> new_effects t (snd (remove a r t)) = [SetConnected p True])
   \<and> (\<not> shutdown t \<and> retry_queue t = q # qs \<and> connected (objs t (queue_top (objs t) q qs)) \<longrightarrow>
      worker_iteration now env t
        = t\<lparr>retry_queue := remove1 (queue_top (objs t) q qs) (retry_queue t)\<rparr>)
   \<and> (\<forall>p < next_obj (run ops (initial quiet)).
        conn_map (run ops (initial quiet))
            (endpoint_of (addr (objs (run ops (initial quiet)) p))) \<noteq> Some p
        \<longrightarrow> connected (objs (run ops (initial quiet)) p))
   \<and> (\<forall>p \<in> set (retry_queue (run ops (initial quiet))).
        conn_map (run ops (initial quiet))
            (endpoint_of (addr (objs (run ops (initial quiet)) p))) \<noteq> Some p
        \<longrightarrow> connected (objs (run ops (initial quiet)) p))
   \<and> (\<forall>e \<in> set (new_effects (run ops (initial quiet))
                   (worker_iteration now env (run ops (initial quiet)))).
        \<forall>b. connect_dest e = Some b \<longrightarrow>
          (\<exists>p. conn_map (run ops (initial quiet)) (endpoint_of b) = Some p
             \<and> addr (objs (run ops (initial quiet)) p) = b
             \<and> \<not> connected (objs (run ops (initial quiet)) p)))"
proof -
  have i: "inv (run ops (initial quiet))" by (rule inv_run [OF inv_initial])
  have 1: "conn_map t (endpoint_of a) = Some p \<and> \<not> connected (objs t p) \<longrightarrow>
      connected (objs (snd (remove a r t)) p)
    \<and> conn_map (snd (remove a r t)) (endpoint_of a) = None
    \<and> new_effects t (snd (remove a r t)) = [SetConnected p True]"
    by (simp add: remove_disconnected new_effects_def)
  have 2: "\<not> shutdown t \<and> retry_queue t = q # qs \<and> connected (objs t (queue_top (objs t) q qs)) \<longrightarrow>
      worker_iteration now env t
        = t\<lparr>retry_queue := remove1 (queue_top (objs t) q qs) (retry_queue t)\<rparr>"
    by (simp add: worker_stale pop_def)
  have 3: "\<forall>p < next_obj (run ops (initial quiet)).
        conn_map (run ops (initial quiet))
            (endpoint_of (addr (objs (run ops (initial quiet)) p))) \<noteq> Some p
        \<longrightarrow> connected (objs (run ops (initial quiet)) p)"
    using i by (auto simp: inv_def registered_def)
  have 4: "\<forall>p \<in> set (retry_queue (run ops (initial quiet))).
        conn_map (run ops (initial quiet))
            (endpoint_of (addr (objs (run ops (initial quiet)) p))) \<noteq> Some p
        \<longrightarrow> connected (objs (run ops (initial quiet)) p)"
    using i by (auto simp: inv_def registered_def)
  have 5: "\<forall>e \<in> set (new_effects (run ops (initial quiet))
                   (worker_iteration now env (run ops (initial quiet)))).
        \<forall>b. connect_dest e = Some b \<longrightarrow>
          (\<exists>p. conn_map (run ops (initial quiet)) (endpoint_of b) = Some p
             \<and> addr (objs (run ops (initial quiet)) p) = b
             \<and> \<not> connected (objs (run ops (initial quiet)) p))"
    using worker_dests [OF i] by blast
  from 1 2 3 4 5 show ?thesis by blast
qed

theorem removed_record_never_retried_witness:
  "connected (objs (snd (remove peer OK (step (add_peer (Failure 1)) (initial False)))) 0)
   \<and> retry_queue (run [add_peer (Failure 1), Remove peer OK] (initial False)) = [0]
   \<and> connected (objs (run [add_peer (Failure 1), Remove peer OK] (initial False)) 0)
   \<and> worker_iteration 20000000000 (env_of OK)
        (run [add_peer (Failure 1), Remove peer OK] (initial False))
      = (run [add_peer (Failure 1), Remove peer OK] (initial False))\<lparr>retry_queue := []\<rparr>
   \<and> retry_queue (worker_iteration 20000000000 (env_of OK)
        (run [add_peer (Failure 1), Remove peer OK] (initial False))) = []
   \<and> new_effects (run [add_peer (Failure 1), Remove peer OK] (initial False))
        (worker_iteration 20000000000 (env_of OK)
          (run [add_peer (Failure 1), Remove peer OK] (initial False))) = []"
proof -
  define t where "t = step (add_peer (Failure 1)) (initial False)"
  define s where "s = run [add_peer (Failure 1), Remove peer OK] (initial False)"
  have t: "conn_map t (endpoint_of peer) = Some 0" "\<not> connected (objs t 0)"
    by (simp_all add: t_def eval_defs)
  have s: "retry_queue s = [0]" "conn_map s (endpoint_of (addr (objs s 0))) \<noteq> Some 0"
    "\<not> shutdown s"
    by (simp_all add: s_def eval_defs)
  have top: "queue_top (objs s) 0 [] = 0" by simp
  note main = removed_record_never_retried
  from main [where t = t and a = peer and p = 0 and r = OK] t
  have 1: "connected (objs (snd (remove peer OK t)) 0)" by blast
  from main [where ops = "[add_peer (Failure 1), Remove peer OK]" and quiet = False,
      folded s_def] s(1,2)
  have 3: "connected (objs s 0)" by simp
  from main [where t = s and q = 0 and qs = "[]" and now = 20000000000 and env = "env_of OK"]
    s(1,3) 3 top
  have 4: "worker_iteration 20000000000 (env_of OK) s = s\<lparr>retry_queue := []\<rparr>" by simp
  from 1 s(1) 3 4 show ?thesis
    unfolding t_def s_def by (simp add: new_effects_def)
qed

section \<open>Waiting for a connection\<close>

text \<open>
  Claim C7 says that \<^verbatim>\<open>wait_for_connection\<close> returns true whenever the record's
  \<open>connected\<close> flag is or becomes true before the deadline. The code returns false as soon
  as a \<^verbatim>\<open>timed_wait\<close> expires, without testing the flag again. First scenario: the record
  is registered and not connected; during the wait \<^verbatim>\<open>remove\<close> sets the flag (and signals
  nobody); the wait expires; the call returns false with the flag set. Second scenario:
  the record stays registered; during the first wait the connection is established (the
  waiter is signalled) and lost again before the waiter runs; the second wait expires; the
  call returns false although the flag was true before the deadline. In both, nothing
  happens between the lookup and the first test of the flag.
\<close>

theorem wait_for_connection_flag_set_counterexample:
  "conn_map (step (add_peer OK) (initial False)) (endpoint_of peer) = Some 0
   \<and> connected (objs (timed_wait 0
        \<lparr>wk_now = 2000000000, wk_remaining = 1000, wk_ops = [Remove peer OK],
         wk_signalled = False\<rparr> (step (add_peer OK) (initial False))) 0)
   \<and> map_option fst (wait_for_connection peer []
        [\<lparr>wk_now = 2000000000, wk_remaining = 1000, wk_ops = [Remove peer OK],
          wk_signalled = False\<rparr>]
        (step (add_peer OK) (initial False))) = Some False
   \<and> connected (objs (timed_wait 0
        \<lparr>wk_now = 2000000000, wk_remaining = 1000,
          wk_ops = [Handle \<lparr>ev_type = CONNECTION_ESTABLISHED, ev_addr = peer\<rparr> 0],
          wk_signalled = True\<rparr> (step (add_peer OK) (initial False))) 0)
   \<and> map_option fst (wait_for_connection peer []
        [\<lparr>wk_now = 2000000000, wk_remaining = 1000,
          wk_ops = [Handle \<lparr>ev_type = CONNECTION_ESTABLISHED, ev_addr = peer\<rparr> 0,
                    Handle \<lparr>ev_type = DISCONNECT, ev_addr = peer\<rparr> 2500000000],
          wk_signalled = True\<rparr>,
         \<lparr>wk_now = 2500000000, wk_remaining = 500, wk_ops = [], wk_signalled = False\<rparr>]
        (step (add_peer OK) (initial False))) = Some False"
  by (simp add: wait_for_connection_def timed_wait_def eval_defs)

text \<open>
  Claim C7, amended. \<^verbatim>\<open>wait_for_connection\<close> returns false without waiting (the state is
  unchanged) when the address is not in the registry at the lookup. When the lookup finds
  a record, the other threads may run (\<open>gap\<close>) before the call takes the record's mutex;
  the call returns true, without waiting, if the flag is set when it first tests it, and
  otherwise waits: one \<^verbatim>\<open>timed_wait\<close> logs the wait with the deadline clock plus remaining
  time and lets the other threads run. It returns false as soon as a \<^verbatim>\<open>timed_wait\<close>
  expires, whatever the flag holds then; after a \<^verbatim>\<open>timed_wait\<close> that was woken before its
  deadline it returns true if the flag is set and waits again if it is not. Whenever it
  returns true, the flag of the record is set in the state it returns in; and it does
  return if one of the waits expires.
\<close>

theorem wait_for_connection_result:
  "(conn_map s (endpoint_of a) = None \<longrightarrow> wait_for_connection a gap ws s = Some (False, s))
   \<and> (conn_map s (endpoint_of a) = Some p \<longrightarrow>
        (connected (objs (run gap s) p) \<longrightarrow>
           wait_for_connection a gap ws s = Some (True, run gap s))
      \<and> (\<not> connected (objs (run gap s) p) \<longrightarrow>
           (\<not> wk_signalled w \<longrightarrow>
              wait_for_connection a gap (w # ws) s = Some (False, timed_wait p w (run gap s)))
         \<and> (wk_signalled w \<and> connected (objs (timed_wait p w (run gap s)) p) \<longrightarrow>
              wait_for_connection a gap (w # ws) s = Some (True, timed_wait p w (run gap s)))
         \<and> (wk_signalled w \<and> \<not> connected (objs (timed_wait p w (run gap s)) p) \<longrightarrow>
              wait_for_connection a gap (w # ws) s
                = wait_loop p ws (timed_wait p w (run gap s))))
      \<and> (wait_for_connection a gap ws s = Some (True, s') \<longrightarrow> connected (objs s' p))
      \<and> ((\<exists>x \<in> set ws. \<not> wk_signalled x) \<longrightarrow> wait_for_connection a gap ws s \<noteq> None))
   \<and> timed_wait p w s
       = run (wk_ops w)
           (s\<lparr>trace := trace s
                @ [CondTimedWait p (wk_now w + 1000000 * uint (wk_remaining w))]\<rparr>)"
proof (intro conjI impI)
  assume "conn_map s (endpoint_of a) = None"
  then show "wait_for_connection a gap ws s = Some (False, s)"
    by (simp add: wait_for_connection_def)
next
  show "timed_wait p w s
       = run (wk_ops w)
           (s\<lparr>trace := trace s
                @ [CondTimedWait p (wk_now w + 1000000 * uint (wk_remaining w))]\<rparr>)"
    by (simp add: timed_wait_def emit_def xtime_add_millis_def)
next
  assume p: "conn_map s (endpoint_of a) = Some p"
  then have w: "wait_for_connection a gap xs s = wait_loop p xs (run gap s)" for xs
    by (simp add: wait_for_connection_def)
  { assume "connected (objs (run gap s) p)"
    then show "wait_for_connection a gap ws s = Some (True, run gap s)"
      by (simp add: w wait_loop_connected) }
  { assume "wait_for_connection a gap ws s = Some (True, s')"
    then show "connected (objs s' p)" by (simp add: w wait_loop_true) }
  { assume "\<exists>x \<in> set ws. \<not> wk_signalled x"
    then show "wait_for_connection a gap ws s \<noteq> None" by (simp add: w wait_loop_returns) }
  assume nc: "\<not> connected (objs (run gap s) p)"
  { assume "\<not> wk_signalled w"
    with nc show "wait_for_connection a gap (w # ws) s
        = Some (False, timed_wait p w (run gap s))"
      by (simp add: w) }
  { assume "wk_signalled w \<and> connected (objs (timed_wait p w (run gap s)) p)"
    with nc show "wait_for_connection a gap (w # ws) s
        = Some (True, timed_wait p w (run gap s))"
      by (simp add: w wait_loop_connected) }
  { assume "wk_signalled w \<and> \<not> connected (objs (timed_wait p w (run gap s)) p)"
    with nc show "wait_for_connection a gap (w # ws) s
        = wait_loop p ws (timed_wait p w (run gap s))"
      by (simp add: w) }
qed

theorem wait_for_connection_result_witness:
  "wait_for_connection peer [] [] (initial False) = Some (False, initial False)
   \<and> wait_for_connection peer [] []
        (step (add_peer COMM_ALREADY_CONNECTED) (initial False))
       = Some (True, step (add_peer COMM_ALREADY_CONNECTED) (initial False))
   \<and> map_option fst (wait_for_connection peer []
        [\<lparr>wk_now = 2000000000, wk_remaining = 1000, wk_ops = [], wk_signalled = False\<rparr>]
        (step (add_peer OK) (initial False))) = Some False
   \<and> map_option fst (wait_for_connection peer []
        [\<lparr>wk_now = 2000000000, wk_remaining = 1000,
          wk_ops = [Handle \<lparr>ev_type = CONNECTION_ESTABLISHED, ev_addr = peer\<rparr> 0],
          wk_signalled = True\<rparr>]
        (step (add_peer OK) (initial False))) = Some True
   \<and> map_option fst (wait_for_connection peer [Remove peer OK] []
        (step (add_peer OK) (initial False))) = Some True
   \<and> map_option fst (wait_for_connection peer
        [Handle \<lparr>ev_type = DISCONNECT, ev_addr = peer\<rparr> 0]
        [\<lparr>wk_now = 2000000000, wk_remaining = 1000, wk_ops = [], wk_signalled = False\<rparr>]
        (step (add_peer COMM_ALREADY_CONNECTED) (initial False))) = Some False
   \<and> trace (timed_wait 0
        \<lparr>wk_now = 2000000000, wk_remaining = 1000, wk_ops = [], wk_signalled = False\<rparr>
        (initial False)) = [CondTimedWait 0 3000000000]"
proof -
  define ac where "ac = step (add_peer COMM_ALREADY_CONNECTED) (initial False)"
  define ok where "ok = step (add_peer OK) (initial False)"
  define w1 where
    "w1 = \<lparr>wk_now = 2000000000, wk_remaining = 1000, wk_ops = [], wk_signalled = False\<rparr>"
  define w2 where
    "w2 = \<lparr>wk_now = 2000000000, wk_remaining = 1000,
          wk_ops = [Handle \<lparr>ev_type = CONNECTION_ESTABLISHED, ev_addr = peer\<rparr> 0],
          wk_signalled = True\<rparr>"
  define rm where "rm = [Remove peer OK]"
  define dc where "dc = [Handle \<lparr>ev_type = DISCONNECT, ev_addr = peer\<rparr> 0]"
  have absent: "conn_map (initial False) (endpoint_of peer) = None"
    by (simp add: initial_def)
  have ac: "conn_map ac (endpoint_of peer) = Some 0" "connected (objs (run [] ac) 0)"
    "\<not> connected (objs (run dc ac) 0)"
    by (simp_all add: ac_def dc_def eval_defs)
  have ok: "conn_map ok (endpoint_of peer) = Some 0" "\<not> connected (objs (run [] ok) 0)"
    "connected (objs (run rm ok) 0)"
    by (simp_all add: ok_def rm_def eval_defs)
  have sig: "\<not> wk_signalled w1" "wk_signalled w2" by (simp_all add: w1_def w2_def)
  have est: "connected (objs (timed_wait 0 w2 (run [] ok)) 0)"
    by (simp add: ok_def w2_def timed_wait_def eval_defs)
  note main = wait_for_connection_result
  from main [where s = "initial False" and a = peer and gap = "[]" and ws = "[]"] absent
  have 1: "wait_for_connection peer [] [] (initial False) = Some (False, initial False)"
    by blast
  from main [where s = ac and a = peer and p = 0 and gap = "[]" and ws = "[]"] ac
  have 2: "wait_for_connection peer [] [] ac = Some (True, ac)" by simp
  from main [where s = ok and a = peer and p = 0 and gap = "[]" and ws = "[]" and w = w1]
    ok sig
  have "wait_for_connection peer [] [w1] ok = Some (False, timed_wait 0 w1 (run [] ok))"
    by blast
  then have 3: "map_option fst (wait_for_connection peer [] [w1] ok) = Some False" by simp
  from main [where s = ok and a = peer and p = 0 and gap = "[]" and ws = "[]" and w = w2]
    ok sig est
  have "wait_for_connection peer [] [w2] ok = Some (True, timed_wait 0 w2 (run [] ok))"
    by blast
  then have 4: "map_option fst (wait_for_connection peer [] [w2] ok) = Some True" by simp
  from main [where s = ok and a = peer and p = 0 and gap = rm and ws = "[]"] ok
  have "wait_for_connection peer rm [] ok = Some (True, run rm ok)" by blast
  then have 5: "map_option fst (wait_for_connection peer rm [] ok) = Some True" by simp
  from main [where s = ac and a = peer and p = 0 and gap = dc and ws = "[]" and w = w1]
    ac sig
  have "wait_for_connection peer dc [w1] ac = Some (False, timed_wait 0 w1 (run dc ac))"
    by blast
  then have 6: "map_option fst (wait_for_connection peer dc [w1] ac) = Some False" by simp
  from main [where s = "initial False" and p = 0 and w = w1]
  have "timed_wait 0 w1 (initial False)
       = run (wk_ops w1)
           ((initial False)\<lparr>trace := trace (initial False)
                @ [CondTimedWait 0 (wk_now w1 + 1000000 * uint (wk_remaining w1))]\<rparr>)"
    by blast
  then have 7: "trace (timed_wait 0 w1 (initial False)) = [CondTimedWait 0 3000000000]"
    by (simp add: w1_def initial_def)
  from 1 2 3 4 5 6 7 show ?thesis
    unfolding ac_def ok_def w1_def w2_def rm_def dc_def by blast
qed

section \<open>Transitions to connected\<close>

text \<open>
  Claim C4 says that a record transitions to \<open>connected = true\<close> in exactly two situations.
  There is a third: \<^verbatim>\<open>remove\<close> of a registered record that is not connected sets the flag
  (so that stale entries of the retry queue are skipped) and notifies nobody. Here the
  record of the peer goes from not connected to connected in a \<^verbatim>\<open>remove\<close>, and the write
  of the flag is all that \<^verbatim>\<open>remove\<close> adds to the trace: no event was handled, no connect
  was called, no waiter was notified.
\<close>

theorem remove_sets_connected_counterexample:
  "\<not> connected (objs (step (add_peer OK) (initial False)) 0)
   \<and> connected (objs (step (Remove peer OK) (step (add_peer OK) (initial False))) 0)
   \<and> new_effects (step (add_peer OK) (initial False))
        (step (Remove peer OK) (step (add_peer OK) (initial False))) = [SetConnected 0 True]"
  by (simp add: eval_defs)

text \<open>
  Claim C4, amended. An operation sets a record's \<open>connected\<close> flag to true and notifies all
  waiters on the record's condition in exactly two situations: it is \<^verbatim>\<open>handle\<close> for a
  \<^verbatim>\<open>CONNECTION_ESTABLISHED\<close> event whose address is registered to the record, or it calls
  \<^verbatim>\<open>send_connect_request\<close> for the record (from \<^verbatim>\<open>add\<close> or from the worker) and the comm
  layer's connect returns \<^verbatim>\<open>COMM_ALREADY_CONNECTED\<close>. In both, the flag is true afterwards and
  the notification is the trace entry right after the write of the flag. Whenever the
  flag of a record goes from false to true, the write is in the trace, and a write of true
  without the notification is made by \<^verbatim>\<open>remove\<close> only. The last two conjuncts tie
  \<open>connect_target\<close> to the trace: the operation calls connect, once and with the addresses
  of that record, exactly when \<open>connect_target\<close> names a record.
\<close>

theorem connected_with_notify_exactly:
  "(CondNotifyAll p \<in> set (new_effects s (step x s)) \<longleftrightarrow>
      (\<exists>ev now. x = Handle ev now \<and> ev_type ev = CONNECTION_ESTABLISHED
          \<and> conn_map s (endpoint_of (ev_addr ev)) = Some p)
    \<or> (connect_target x s = Some p \<and> op_connect_ret x = Some COMM_ALREADY_CONNECTED))
   \<and> (CondNotifyAll p \<in> set (new_effects s (step x s)) \<longrightarrow>
        connected (objs (step x s) p)
      \<and> (\<exists>es es'. new_effects s (step x s) = es @ [SetConnected p True, CondNotifyAll p] @ es'))
   \<and> (\<not> connected (objs s p) \<and> connected (objs (step x s) p) \<longrightarrow>
        SetConnected p True \<in> set (new_effects s (step x s)))
   \<and> (SetConnected p True \<in> set (new_effects s (step x s)) \<longrightarrow>
        CondNotifyAll p \<in> set (new_effects s (step x s)) \<or> (\<exists>a r. x = Remove a r))
   \<and> (connect_target x s = Some p \<longrightarrow>
        (\<exists>es. new_effects s (step x s) = connect_call (objs (step x s) p) # es
            \<and> (\<forall>e \<in> set es. \<not> is_connect e)))
   \<and> (connect_target x s = None \<longrightarrow> (\<forall>e \<in> set (new_effects s (step x s)). \<not> is_connect e))"
proof (cases "connect_target x s")
  case None
  have "connect_target x s \<noteq> Some p" by (simp add: None)
  with new_step_no_target [OF None, of p] None flag_change_traced [of s p x]
  show ?thesis by blast
next
  case (Some q)
  from new_step_target [OF Some] obtain env where
    env: "op_connect_ret x = Some (connect_ret env)"
      "new_effects s (step x s) = scr_effects (objs (step x s) q) q env"
      "connect_ret env = COMM_ALREADY_CONNECTED \<longrightarrow> connected (objs (step x s) q)"
    by blast
  have nh: "\<not> (\<exists>ev now. x = Handle ev now)" using Some by auto
  have 1: "CondNotifyAll p \<in> set (new_effects s (step x s)) \<longleftrightarrow>
      (\<exists>ev now. x = Handle ev now \<and> ev_type ev = CONNECTION_ESTABLISHED
          \<and> conn_map s (endpoint_of (ev_addr ev)) = Some p)
    \<or> (connect_target x s = Some p \<and> op_connect_ret x = Some COMM_ALREADY_CONNECTED)"
    using nh by (auto simp: Some env scr_effects_notify)
  have 2: "CondNotifyAll p \<in> set (new_effects s (step x s)) \<longrightarrow>
        connected (objs (step x s) p)
      \<and> (\<exists>es es'. new_effects s (step x s) = es @ [SetConnected p True, CondNotifyAll p] @ es')"
  proof
    assume "CondNotifyAll p \<in> set (new_effects s (step x s))"
    then have pq: "p = q" and ac: "connect_ret env = COMM_ALREADY_CONNECTED"
      by (simp_all add: env scr_effects_notify)
    from scr_effects_shape [OF ac, of "objs (step x s) q" q]
    have "\<exists>es es'. new_effects s (step x s) = es @ [SetConnected p True, CondNotifyAll p] @ es'"
      unfolding env(2) pq by blast
    with env(3) ac pq show "connected (objs (step x s) p)
      \<and> (\<exists>es es'. new_effects s (step x s) = es @ [SetConnected p True, CondNotifyAll p] @ es')"
      by simp
  qed
  have 3: "SetConnected p True \<in> set (new_effects s (step x s)) \<longrightarrow>
        CondNotifyAll p \<in> set (new_effects s (step x s)) \<or> (\<exists>a r. x = Remove a r)"
    by (simp add: env scr_effects_notify scr_effects_set_connected)
  have 4: "connect_target x s = Some p \<longrightarrow>
        (\<exists>es. new_effects s (step x s) = connect_call (objs (step x s) p) # es
            \<and> (\<forall>e \<in> set es. \<not> is_connect e))"
    using scr_effects_connects [of "objs (step x s) q" q env] by (auto simp: Some env)
  from 1 2 3 4 Some flag_change_traced [of s p x] show ?thesis by simp
qed

theorem connected_with_notify_exactly_witness:
  "CondNotifyAll 0 \<in> set (new_effects (initial False)
       (step (add_peer COMM_ALREADY_CONNECTED) (initial False)))
   \<and> connected (objs (step (add_peer COMM_ALREADY_CONNECTED) (initial False)) 0)
   \<and> CondNotifyAll 0 \<in> set (new_effects (step (add_peer OK) (initial False))
       (step (Handle \<lparr>ev_type = CONNECTION_ESTABLISHED, ev_addr = peer\<rparr> 0)
          (step (add_peer OK) (initial False))))
   \<and> connected (objs (step (Handle \<lparr>ev_type = CONNECTION_ESTABLISHED, ev_addr = peer\<rparr> 0)
          (step (add_peer OK) (initial False))) 0)
   \<and> CondNotifyAll 0 \<notin> set (new_effects (step (add_peer OK) (initial False))
       (step (Remove peer OK) (step (add_peer OK) (initial False))))"
proof -
  let ?s = "step (add_peer OK) (initial False)"
  have t: "connect_target (add_peer COMM_ALREADY_CONNECTED) (initial False) = Some 0"
    "op_connect_ret (add_peer COMM_ALREADY_CONNECTED) = Some COMM_ALREADY_CONNECTED"
    by (simp_all add: ex_defs)
  have h: "conn_map ?s (endpoint_of peer) = Some 0"
    by (simp add: eval_defs)
  note main = connected_with_notify_exactly
  from main [of 0 "initial False" "add_peer COMM_ALREADY_CONNECTED"] t
  have 1: "CondNotifyAll 0 \<in> set (new_effects (initial False)
       (step (add_peer COMM_ALREADY_CONNECTED) (initial False)))
   \<and> connected (objs (step (add_peer COMM_ALREADY_CONNECTED) (initial False)) 0)" by simp
  from main [of 0 ?s "Handle \<lparr>ev_type = CONNECTION_ESTABLISHED, ev_addr = peer\<rparr> 0"] h
  have 2: "CondNotifyAll 0 \<in> set (new_effects ?s
       (step (Handle \<lparr>ev_type = CONNECTION_ESTABLISHED, ev_addr = peer\<rparr> 0) ?s))
   \<and> connected (objs (step (Handle \<lparr>ev_type = CONNECTION_ESTABLISHED, ev_addr = peer\<rparr> 0) ?s) 0)"
    by simp
  from main [of 0 ?s "Remove peer OK"]
  have 3: "CondNotifyAll 0 \<notin> set (new_effects ?s (step (Remove peer OK) ?s))"
    by simp
  from 1 2 3 show ?thesis by simp
qed

section \<open>Local address with port zero\<close>

text \<open>
  Claim C10. The \<^verbatim>\<open>add\<close> overload without a local address leaves a zero-filled
  \<open>local_addr\<close> in the record it creates. \<^verbatim>\<open>send_connect_request\<close> calls the bound connect
  if the port of the record's \<open>local_addr\<close> is not zero and the unbound connect otherwise,
  and that is its only connect. If the port of \<open>la\<close> is zero, \<^verbatim>\<open>add\<close> with the local
  address \<open>la\<close> appends to the trace what \<^verbatim>\<open>add\<close> without a local address appends
  (starting with the unbound connect when the endpoint is new), and after any further
  operations the two managers still have the same trace, the same registry, retry queue
  and flags (they differ at most in local addresses with port zero), \<^verbatim>\<open>remove\<close> returns the
  same status and \<^verbatim>\<open>wait_for_connection\<close> the same answer.
\<close>
theorem zero_port_local_addr_is_unbound:
  "(conn_map s (endpoint_of a) = None \<longrightarrow>
      local_addr (objs (add a tmo name h now env s) (next_obj s)) = zero_sockaddr)
   \<and> (\<exists>es. new_effects s (send_connect_request p env s) =
          (if sin_port (local_addr (objs s p)) \<noteq> 0
           then CommConnectLocal (addr (objs s p)) (local_addr (objs s p))
           else CommConnect (addr (objs s p))) # es
        \<and> (\<forall>e \<in> set es. \<not> is_connect e))
   \<and> (sin_port la = 0 \<longrightarrow>
        new_effects s (add_local a la tmo name h now env s)
          = new_effects s (add a tmo name h now env s)
      \<and> (conn_map s (endpoint_of a) = None \<longrightarrow>
           (\<exists>es. new_effects s (add_local a la tmo name h now env s) = CommConnect a # es
               \<and> (\<forall>e \<in> set es. \<not> is_connect e)))
      \<and> sim (run ops (add_local a la tmo name h now env s)) (run ops (add a tmo name h now env s))
      \<and> trace (run ops (add_local a la tmo name h now env s))
          = trace (run ops (add a tmo name h now env s))
      \<and> fst (remove b r (run ops (add_local a la tmo name h now env s)))
          = fst (remove b r (run ops (add a tmo name h now env s)))
      \<and> map_option fst (wait_for_connection b gap ws (run ops (add_local a la tmo name h now env s)))
          = map_option fst (wait_for_connection b gap ws (run ops (add a tmo name h now env s))))"
proof (intro conjI impI)
  assume "conn_map s (endpoint_of a) = None"
  then show "local_addr (objs (add a tmo name h now env s) (next_obj s)) = zero_sockaddr"
    by (simp add: add_def Let_def scr_immutable)
next
  from scr_connects_once [of p env s]
  show "\<exists>es. new_effects s (send_connect_request p env s) =
          (if sin_port (local_addr (objs s p)) \<noteq> 0
           then CommConnectLocal (addr (objs s p)) (local_addr (objs s p))
           else CommConnect (addr (objs s p))) # es
        \<and> (\<forall>e \<in> set es. \<not> is_connect e)"
    by (auto simp: new_effects_def connect_call_def)
next
  assume z: "sin_port la = 0"
  have s0: "sim (add_local a la tmo name h now env s) (add a tmo name h now env s)"
    by (rule sim_add_local_add [OF sim_refl z])
  show "new_effects s (add_local a la tmo name h now env s)
          = new_effects s (add a tmo name h now env s)"
    by (simp add: new_effects_def simD(6) [OF s0])
  have r: "sim (run ops (add_local a la tmo name h now env s))
               (run ops (add a tmo name h now env s))"
    by (rule sim_run [OF s0])
  then show "sim (run ops (add_local a la tmo name h now env s))
               (run ops (add a tmo name h now env s))" .
  show "trace (run ops (add_local a la tmo name h now env s))
          = trace (run ops (add a tmo name h now env s))"
    by (rule simD(6) [OF r])
  show "fst (remove b r (run ops (add_local a la tmo name h now env s)))
          = fst (remove b r (run ops (add a tmo name h now env s)))"
    by (rule sim_remove(1) [OF r])
  show "map_option fst (wait_for_connection b gap ws (run ops (add_local a la tmo name h now env s)))
          = map_option fst (wait_for_connection b gap ws (run ops (add a tmo name h now env s)))"
    by (rule sim_wait [OF r])
  assume f: "conn_map s (endpoint_of a) = None"
  have "scr_effects (objs (add_local a la tmo name h now env s) (next_obj s)) (next_obj s) env
        = CommConnect a #
            tl (scr_effects (objs (add_local a la tmo name h now env s) (next_obj s)) (next_obj s) env)"
    using f z by (simp add: scr_effects_def connect_call_def add_local_def Let_def scr_immutable)
  moreover have "\<forall>e \<in> set (tl (scr_effects (objs (add_local a la tmo name h now env s) (next_obj s))
        (next_obj s) env)). \<not> is_connect e"
    by (simp add: scr_effects_def error_line_def split: error.split)
  ultimately show "\<exists>es. new_effects s (add_local a la tmo name h now env s) = CommConnect a # es
               \<and> (\<forall>e \<in> set es. \<not> is_connect e)"
    using f by (auto simp: new_add_local)
qed

theorem zero_port_local_addr_is_unbound_witness:
  "new_effects (initial False)
     (add_local peer bind_any 5000 None None 0 (env_of OK) (initial False))
     = new_effects (initial False) (add peer 5000 None None 0 (env_of OK) (initial False))
   \<and> trace (run [Handle \<lparr>ev_type = DISCONNECT, ev_addr = peer\<rparr> 0, Worker 6000000000 (env_of OK)]
        (add_local peer bind_any 5000 None None 0 (env_of OK) (initial False)))
     = trace (run [Handle \<lparr>ev_type = DISCONNECT, ev_addr = peer\<rparr> 0, Worker 6000000000 (env_of OK)]
        (add peer 5000 None None 0 (env_of OK) (initial False)))
   \<and> local_addr (objs (add peer 5000 None None 0 (env_of OK) (initial False)) 0) = zero_sockaddr
   \<and> local_addr (objs (add_local peer bind_any 5000 None None 0 (env_of OK) (initial False)) 0)
       = bind_any"
proof -
  define ops where
    "ops = [Handle \<lparr>ev_type = DISCONNECT, ev_addr = peer\<rparr> 0, Worker 6000000000 (env_of OK)]"
  define L where "L = add_local peer bind_any 5000 None None 0 (env_of OK) (initial False)"
  define A where "A = add peer 5000 None None 0 (env_of OK) (initial False)"
  have z: "sin_port bind_any = 0" by (simp add: bind_any_def)
  have f: "conn_map (initial False) (endpoint_of peer) = None"
    by (simp add: initial_def)
  have n: "next_obj (initial False) = 0"
    by (simp add: initial_def)
  have b: "local_addr (objs L 0) = bind_any"
    by (simp add: L_def add_local_def Let_def scr_immutable initial_def)
  note main = zero_port_local_addr_is_unbound [where s = "initial False" and a = peer
      and tmo = 5000 and name = None and h = None and now = 0 and env = "env_of OK"
      and la = bind_any and ops = ops, folded L_def A_def]
  from main f n have 1: "local_addr (objs A 0) = zero_sockaddr" by metis
  from main z have 2: "new_effects (initial False) L = new_effects (initial False) A"
    by blast
  from main z have 3: "trace (run ops L) = trace (run ops A)" by blast
  from 1 2 3 b show ?thesis unfolding ops_def L_def A_def by blast
qed

end
